theory Spec2Isabelle
  imports Complex_Main "HOL-Library.Sublist" "HOL-Library.Multiset"
begin

section \<open>Strings\<close>

text \<open>
  Python strings are modelled as lists of \<^typ>\<open>char\<close>, a character standing for the code
  point of the same number (code points below 256).  The two string methods the
  program uses are \<^verbatim>\<open>str.strip()\<close> and \<^verbatim>\<open>str.lower()\<close>.
\<close>

definition is_space :: "char \<Rightarrow> bool" where
  "is_space c =
     (let n = (of_char c :: nat)
      in (9 \<le> n \<and> n \<le> 13) \<or> (28 \<le> n \<and> n \<le> 32) \<or> n = 133 \<or> n = 160)"

definition strip :: "string \<Rightarrow> string" where
  "strip s = rev (dropWhile is_space (rev (dropWhile is_space s)))"

definition lower_char :: "char \<Rightarrow> char" where
  "lower_char c =
     (let n = (of_char c :: nat)
      in if (65 \<le> n \<and> n \<le> 90) \<or> (192 \<le> n \<and> n \<le> 222 \<and> n \<noteq> 215)
         then char_of (n + 32) else c)"

definition lower :: "string \<Rightarrow> string" where
  "lower s = map lower_char s"

text \<open>The test \<^verbatim>\<open>sub in s\<close> on strings: \<open>sub\<close> occurs in \<open>s\<close> as a contiguous block.\<close>

fun contains :: "string \<Rightarrow> string \<Rightarrow> bool" where
  "contains sub [] = (sub = [])"
| "contains sub (x # xs) = (prefix sub (x # xs) \<or> contains sub xs)"

section \<open>Tables\<close>

text \<open>
  A cell of a pandas table is a missing value (\<^verbatim>\<open>NaN\<close>, \<^verbatim>\<open>NaT\<close>), a number, a string
  or a timestamp.  Numbers are exact rationals: the rounding, the infinities and the
  overflow of \<^verbatim>\<open>float64\<close> and \<^verbatim>\<open>int64\<close> are outside this model.  A timestamp is the
  number of nanoseconds since 1970-01-01, as in \<^verbatim>\<open>datetime64[ns]\<close>.

  A table has its column labels, the \<^verbatim>\<open>dtype\<close> of every column, and its rows, each
  row a list of cells in column order.
\<close>

datatype cell = Null | Num rat | Str string | Ts int

datatype dtype = Numeric | Object | Datetime

record dataframe =
  columns :: "string list"
  dtypes :: "dtype list"
  rows :: "cell list list"

text \<open>
  A table is rectangular: one dtype per label, one cell per label in every row.  A table
  as the loader returns it has labels that are still different after stripping; with two
  equal labels \<^verbatim>\<open>df[c]\<close> is not a column.
\<close>

definition rectangular :: "dataframe \<Rightarrow> bool" where
  "rectangular df \<longleftrightarrow>
     length (dtypes df) = length (columns df) \<and>
     list_all (\<lambda>r. length r = length (columns df)) (rows df)"

definition wf_frame :: "dataframe \<Rightarrow> bool" where
  "wf_frame df \<longleftrightarrow> rectangular df \<and> distinct (map strip (columns df))"

fun index_of :: "'a \<Rightarrow> 'a list \<Rightarrow> nat option" where
  "index_of x [] = None"
| "index_of x (y # ys) = (if x = y then Some 0 else map_option Suc (index_of x ys))"

definition column_at :: "dataframe \<Rightarrow> nat \<Rightarrow> cell list" where
  "column_at df i = map (\<lambda>r. r ! i) (rows df)"

text \<open>\<^verbatim>\<open>df[c]\<close> for a label that is present (the program tests membership first).\<close>

definition getitem :: "dataframe \<Rightarrow> string \<Rightarrow> cell list" where
  "getitem df c = (case index_of c (columns df) of Some i \<Rightarrow> column_at df i | None \<Rightarrow> [])"

definition set_column :: "dataframe \<Rightarrow> nat \<Rightarrow> dtype \<Rightarrow> cell list \<Rightarrow> dataframe" where
  "set_column df i d vs =
     df\<lparr>dtypes := (dtypes df)[i := d],
        rows := map (\<lambda>(r, v). r[i := v]) (zip (rows df) vs)\<rparr>"

text \<open>
  \<^verbatim>\<open>df[c] = values\<close>: an existing column is replaced in place, a new label is
  appended as the last column.
\<close>

definition setitem :: "dataframe \<Rightarrow> string \<Rightarrow> dtype \<Rightarrow> cell list \<Rightarrow> dataframe" where
  "setitem df c d vs =
     (case index_of c (columns df) of
        Some i \<Rightarrow> set_column df i d vs
      | None \<Rightarrow>
          df\<lparr>columns := columns df @ [c],
             dtypes := dtypes df @ [d],
             rows := map (\<lambda>(r, v). r @ [v]) (zip (rows df) vs)\<rparr>)"

text \<open>\<^verbatim>\<open>df[c] = f(df[c])\<close> for a label \<open>c\<close> of the table.\<close>

definition assign_by_name :: "(cell list \<Rightarrow> cell list) \<Rightarrow> dtype \<Rightarrow> string \<Rightarrow> dataframe \<Rightarrow> dataframe" where
  "assign_by_name f d c df =
     (case index_of c (columns df) of
        Some i \<Rightarrow> set_column df i d (f (column_at df i))
      | None \<Rightarrow> df)"

section \<open>Paths and the loader\<close>

text \<open>
  A \<^verbatim>\<open>pathlib.Path\<close> is the list of its components.  \<^verbatim>\<open>Path.name\<close> is the last
  component (empty for a path without components), and \<^verbatim>\<open>Path.suffix\<close> is the part of
  the name from its last dot on, provided that dot is neither the first nor the last
  character of the name.
\<close>

type_synonym path = "string list"

definition name :: "path \<Rightarrow> string" where
  "name p = (if p = [] then [] else last p)"

text \<open>\<^verbatim>\<open>str.rfind(c)\<close>: the index of the last occurrence, \<open>None\<close> for Python's \<open>-1\<close>.\<close>

fun rfind :: "char \<Rightarrow> string \<Rightarrow> nat option" where
  "rfind c [] = None"
| "rfind c (x # xs) =
     (case rfind c xs of
        Some i \<Rightarrow> Some (Suc i)
      | None \<Rightarrow> (if x = c then Some 0 else None))"

definition suffix_of :: "path \<Rightarrow> string" where
  "suffix_of p =
     (let nm = name p
      in case rfind (CHR ''.'') nm of
           None \<Rightarrow> []
         | Some i \<Rightarrow> (if 0 < i \<and> Suc i < length nm then drop i nm else []))"

text \<open>
  The file system and the pandas readers are the loader's environment.  A reader returns
  a table or raises; what the loader reads is recorded as a list of events, in order.
\<close>

datatype error = FileNotFoundError path | ValueError string | ReaderError string

datatype io_event = ReadCsv path | ReadExcel path "string option"

record io_env =
  path_exists :: "path \<Rightarrow> bool"
  read_csv :: "path \<Rightarrow> error + dataframe"
  read_excel :: "path \<Rightarrow> string option \<Rightarrow> error + dataframe"

definition load_data :: "io_env \<Rightarrow> path \<Rightarrow> io_event list \<times> (error + dataframe)" where
  "load_data env p =
     (if \<not> path_exists env p then ([], Inl (FileNotFoundError p))
      else if lower (suffix_of p) = ''.csv'' then ([ReadCsv p], read_csv env p)
      else if lower (suffix_of p) \<in> {''.xlsx'', ''.xls''} then
        (case read_excel env p (Some ''Orders'') of
           Inr df \<Rightarrow> ([ReadExcel p (Some ''Orders'')], Inr df)
         | Inl e \<Rightarrow>
             ([ReadExcel p (Some ''Orders''), ReadExcel p None], read_excel env p None))
      else ([], Inl (ValueError (suffix_of p))))"

section \<open>The pandas library\<close>

text \<open>
  \<^verbatim>\<open>pd.to_datetime(col, errors="coerce")\<close>, \<^verbatim>\<open>pd.to_numeric(col, errors="coerce")\<close> and
  \<^verbatim>\<open>astype(str)\<close>, the last one value by value, are parameters of the model: the program
  does not say what they return, and pandas versions differ (\<^verbatim>\<open>astype(str)\<close> turns a
  missing value into the string \<^verbatim>\<open>nan\<close> in pandas 2 and keeps it missing in pandas 3).
  What the development uses of them is \<open>pandas_ok\<close>: a coerced column is as long as the
  column it comes from, a date column holds timestamps within the bounds of
  \<^verbatim>\<open>datetime64[ns]\<close> and \<^verbatim>\<open>NaT\<close> only, a numeric column holds numbers and \<^verbatim>\<open>NaN\<close> only,
  and a column that is already of that kind is returned as it is; \<^verbatim>\<open>astype(str)\<close> returns
  a string or a missing value, returns a string as it is, and returns its own results as
  they are.
\<close>

record pandas =
  to_datetime :: "cell list \<Rightarrow> cell list"
  to_numeric :: "cell list \<Rightarrow> cell list"
  astype_str :: "cell \<Rightarrow> cell"

definition ts_in_bounds :: "int \<Rightarrow> bool" where
  "ts_in_bounds t \<longleftrightarrow> - (2 ^ 63) < t \<and> t < 2 ^ 63"

fun datetime_cell :: "cell \<Rightarrow> bool" where
  "datetime_cell Null = True"
| "datetime_cell (Ts t) = ts_in_bounds t"
| "datetime_cell _ = False"

fun numeric_cell :: "cell \<Rightarrow> bool" where
  "numeric_cell Null = True"
| "numeric_cell (Num q) = True"
| "numeric_cell _ = False"

fun string_cell :: "cell \<Rightarrow> bool" where
  "string_cell (Str s) = True"
| "string_cell _ = False"

fun text_cell :: "cell \<Rightarrow> bool" where
  "text_cell (Str s) = True"
| "text_cell Null = True"
| "text_cell _ = False"

definition pandas_ok :: "pandas \<Rightarrow> bool" where
  "pandas_ok lib \<longleftrightarrow>
     (\<forall>xs. length (to_datetime lib xs) = length xs \<and>
           list_all datetime_cell (to_datetime lib xs) \<and>
           (list_all datetime_cell xs \<longrightarrow> to_datetime lib xs = xs)) \<and>
     (\<forall>xs. length (to_numeric lib xs) = length xs \<and>
           list_all numeric_cell (to_numeric lib xs) \<and>
           (list_all numeric_cell xs \<longrightarrow> to_numeric lib xs = xs)) \<and>
     (\<forall>c. text_cell (astype_str lib c) \<and>
          astype_str lib (astype_str lib c) = astype_str lib c) \<and>
     (\<forall>s. astype_str lib (Str s) = Str s)"

section \<open>The cleaner\<close>

definition is_date_column :: "string \<Rightarrow> bool" where
  "is_date_column c = contains ''date'' (lower c)"

definition numeric_names :: "string list" where
  "numeric_names = [''Sales'', ''Profit'', ''Discount'', ''Quantity'', ''Postal Code'']"

definition essential_names :: "string list" where
  "essential_names = [''Order Date'', ''Sales'', ''Profit'']"

text \<open>\<^verbatim>\<open>df.columns = [str(c).strip() for c in df.columns]\<close>; the labels are strings already.\<close>

definition strip_columns :: "dataframe \<Rightarrow> dataframe" where
  "strip_columns df = df\<lparr>columns := map strip (columns df)\<rparr>"

definition coerce_dates :: "pandas \<Rightarrow> dataframe \<Rightarrow> dataframe" where
  "coerce_dates lib df =
     fold (assign_by_name (to_datetime lib) Datetime) (filter is_date_column (columns df)) df"

definition coerce_numerics :: "pandas \<Rightarrow> dataframe \<Rightarrow> dataframe" where
  "coerce_numerics lib df =
     fold (assign_by_name (to_numeric lib) Numeric)
       (filter (\<lambda>c. c \<in> set (columns df)) numeric_names) df"

text \<open>\<^verbatim>\<open>.str.strip()\<close> on one value: a string is stripped, any other value gives a missing
  value.\<close>

definition str_strip :: "cell \<Rightarrow> cell" where
  "str_strip c = (case c of Str s \<Rightarrow> Str (strip s) | _ \<Rightarrow> Null)"

text \<open>\<^verbatim>\<open>df[c].astype(str).str.strip()\<close> on one value.\<close>

definition normalize_cell :: "pandas \<Rightarrow> cell \<Rightarrow> cell" where
  "normalize_cell lib c = str_strip (astype_str lib c)"

text \<open>\<^verbatim>\<open>df.select_dtypes(include="object").columns\<close>\<close>

definition object_columns :: "dataframe \<Rightarrow> string list" where
  "object_columns df = map fst (filter (\<lambda>(c, d). d = Object) (zip (columns df) (dtypes df)))"

definition normalize_strings :: "pandas \<Rightarrow> dataframe \<Rightarrow> dataframe" where
  "normalize_strings lib df =
     fold (assign_by_name (map (normalize_cell lib)) Object) (object_columns df) df"

text \<open>
  \<^verbatim>\<open>drop_duplicates()\<close> keeps the first of equal rows (missing values compare equal) and
  returns an empty table, one without columns or without rows, as it is.
\<close>

definition keep_first :: "'a list \<Rightarrow> 'a list" where
  "keep_first xs = rev (remdups (rev xs))"

definition drop_duplicates :: "dataframe \<Rightarrow> dataframe" where
  "drop_duplicates df =
     (if columns df = [] \<or> rows df = [] then df else df\<lparr>rows := keep_first (rows df)\<rparr>)"

definition notna_in :: "dataframe \<Rightarrow> string list \<Rightarrow> cell list \<Rightarrow> bool" where
  "notna_in df cs r =
     list_all (\<lambda>c. case index_of c (columns df) of Some i \<Rightarrow> r ! i \<noteq> Null | None \<Rightarrow> True) cs"

definition dropna_subset :: "dataframe \<Rightarrow> string list \<Rightarrow> dataframe" where
  "dropna_subset df cs = df\<lparr>rows := filter (notna_in df cs) (rows df)\<rparr>"

text \<open>The cleaner up to and including \<^verbatim>\<open>drop_duplicates\<close>, and its last step.\<close>

definition clean_until_dedup :: "pandas \<Rightarrow> dataframe \<Rightarrow> dataframe" where
  "clean_until_dedup lib df =
     drop_duplicates (normalize_strings lib (coerce_numerics lib (coerce_dates lib (strip_columns df))))"

definition essential :: "dataframe \<Rightarrow> string list" where
  "essential df = filter (\<lambda>c. c \<in> set (columns df)) essential_names"

definition drop_missing_essential :: "dataframe \<Rightarrow> dataframe" where
  "drop_missing_essential df =
     (if essential df \<noteq> [] then dropna_subset df (essential df) else df)"

definition basic_clean :: "pandas \<Rightarrow> dataframe \<Rightarrow> dataframe" where
  "basic_clean lib df = drop_missing_essential (clean_until_dedup lib df)"

text \<open>
  The typing of a cleaned table: a column whose label contains \<^verbatim>\<open>date\<close> is a datetime
  column of timestamps and missing values, a column under one of the five numeric labels
  is a numeric column of numbers and missing values, and an object column holds stripped
  strings and missing values.
\<close>

definition stripped_cell :: "cell \<Rightarrow> bool" where
  "stripped_cell c = (case c of Str s \<Rightarrow> strip s = s | Null \<Rightarrow> True | _ \<Rightarrow> False)"

text \<open>Every cell of every object column has the property \<open>P\<close>.\<close>

definition object_cells :: "(cell \<Rightarrow> bool) \<Rightarrow> dataframe \<Rightarrow> bool" where
  "object_cells P df \<longleftrightarrow>
     list_all (\<lambda>j. dtypes df ! j = Object \<longrightarrow> list_all P (column_at df j))
       [0..<length (columns df)]"

definition typed_frame :: "dataframe \<Rightarrow> bool" where
  "typed_frame df \<longleftrightarrow>
     list_all
       (\<lambda>j. (is_date_column (columns df ! j) \<longrightarrow>
               dtypes df ! j = Datetime \<and> list_all datetime_cell (column_at df j)) \<and>
            (columns df ! j \<in> set numeric_names \<longrightarrow>
               dtypes df ! j = Numeric \<and> list_all numeric_cell (column_at df j)) \<and>
            (dtypes df ! j = Object \<longrightarrow> list_all stripped_cell (column_at df j)))
       [0..<length (columns df)]"

section \<open>Calendar\<close>

text \<open>
  The proleptic Gregorian calendar of \<^verbatim>\<open>datetime64\<close>: the day number of a civil date
  (days since 1970-01-01) and back.
\<close>

definition ns_per_day :: int where
  "ns_per_day = 86400000000000"

definition days_from_civil :: "int \<Rightarrow> int \<Rightarrow> int \<Rightarrow> int" where
  "days_from_civil y m d =
     (let y' = (if m \<le> 2 then y - 1 else y);
          era = y' div 400;
          yoe = y' - era * 400;
          mp = (if m > 2 then m - 3 else m + 9);
          doy = (153 * mp + 2) div 5 + d - 1;
          doe = yoe * 365 + yoe div 4 - yoe div 100 + doy
      in era * 146097 + doe - 719468)"

definition civil_from_days :: "int \<Rightarrow> int \<times> int \<times> int" where
  "civil_from_days z0 =
     (let z = z0 + 719468;
          era = z div 146097;
          doe = z - era * 146097;
          yoe = (doe - doe div 1460 + doe div 36524 - doe div 146096) div 365;
          y = yoe + era * 400;
          doy = doe - (365 * yoe + yoe div 4 - yoe div 100);
          mp = (5 * doy + 2) div 153;
          d = doy - (153 * mp + 2) div 5 + 1;
          m = (if mp < 10 then mp + 3 else mp - 9)
      in (if m \<le> 2 then y + 1 else y, m, d))"

definition date_of :: "int \<Rightarrow> int \<times> int \<times> int" where
  "date_of t = civil_from_days (t div ns_per_day)"

text \<open>\<^verbatim>\<open>.dt.year\<close>, \<^verbatim>\<open>.dt.to_period("M").dt.to_timestamp()\<close> and \<^verbatim>\<open>(a - b).dt.days\<close>, cell by cell;
  a missing value gives a missing value.\<close>

definition year_cell :: "cell \<Rightarrow> cell" where
  "year_cell c = (case c of Ts t \<Rightarrow> (case date_of t of (y, m, d) \<Rightarrow> Num (of_int y)) | _ \<Rightarrow> Null)"

definition month_start_cell :: "cell \<Rightarrow> cell" where
  "month_start_cell c =
     (case c of
        Ts t \<Rightarrow> (case date_of t of (y, m, d) \<Rightarrow> Ts (days_from_civil y m 1 * ns_per_day))
      | _ \<Rightarrow> Null)"

definition delay_days_cell :: "cell \<Rightarrow> cell \<Rightarrow> cell" where
  "delay_days_cell ship ord =
     (case (ship, ord) of
        (Ts s, Ts t) \<Rightarrow> Num (of_int ((s - t) div ns_per_day))
      | _ \<Rightarrow> Null)"

text \<open>\<^verbatim>\<open>strftime("%Y-%m-%d")\<close>: the year in decimal, at least four digits, then month and
  day with two digits each.\<close>

definition digit :: "nat \<Rightarrow> char" where
  "digit n = char_of (48 + n mod 10)"

fun decimal :: "nat \<Rightarrow> string" where
  "decimal n = (if n < 10 then [digit n] else decimal (n div 10) @ [digit n])"

definition zero_pad :: "nat \<Rightarrow> string \<Rightarrow> string" where
  "zero_pad w s = replicate (w - length s) (CHR ''0'') @ s"

definition strftime_ymd :: "int \<Rightarrow> string" where
  "strftime_ymd t =
     (case date_of t of
        (y, m, d) \<Rightarrow>
          zero_pad 4 (decimal (nat y)) @ ''-'' @ zero_pad 2 (decimal (nat m)) @ ''-'' @
          zero_pad 2 (decimal (nat d)))"

text \<open>The form \<^verbatim>\<open>YYYY-MM-DD\<close>: ten characters, digits but for the two hyphens.\<close>

definition is_digit :: "char \<Rightarrow> bool" where
  "is_digit c = (let n = (of_char c :: nat) in 48 \<le> n \<and> n \<le> 57)"

definition iso_date_string :: "string \<Rightarrow> bool" where
  "iso_date_string s \<longleftrightarrow>
     length s = 10 \<and> s ! 4 = CHR ''-'' \<and> s ! 7 = CHR ''-'' \<and>
     list_all is_digit (take 4 s) \<and> list_all is_digit (take 2 (drop 5 s)) \<and>
     list_all is_digit (drop 8 s)"

section \<open>The feature deriver\<close>

text \<open>
  \<^verbatim>\<open>np.where(sales != 0, profit / sales, np.nan)\<close> on one position.  A missing value
  is different from 0 and makes the quotient missing.  numpy computes the quotient at
  every position, also where the divisor is 0, without raising; \<^verbatim>\<open>np.where\<close> then takes
  \<^verbatim>\<open>NaN\<close> there.
\<close>

definition ne_zero :: "cell \<Rightarrow> bool" where
  "ne_zero s = (case s of Num a \<Rightarrow> a \<noteq> 0 | _ \<Rightarrow> True)"

definition truediv :: "cell \<Rightarrow> cell \<Rightarrow> cell" where
  "truediv p s = (case (p, s) of (Num b, Num a) \<Rightarrow> Num (b / a) | _ \<Rightarrow> Null)"

definition np_where :: "bool list \<Rightarrow> cell list \<Rightarrow> cell \<Rightarrow> cell list" where
  "np_where conds xs y = map (\<lambda>(c, x). if c then x else y) (zip conds xs)"

definition profit_margin_column :: "cell list \<Rightarrow> cell list \<Rightarrow> cell list" where
  "profit_margin_column sales profit =
     np_where (map ne_zero sales) (map (\<lambda>(p, s). truediv p s) (zip profit sales)) Null"

definition add_order_features :: "dataframe \<Rightarrow> dataframe" where
  "add_order_features df =
     (if ''Order Date'' \<in> set (columns df) then
        (let df1 = setitem df ''OrderYear'' Numeric (map year_cell (getitem df ''Order Date''))
         in setitem df1 ''OrderMonth'' Datetime (map month_start_cell (getitem df1 ''Order Date'')))
      else df)"

definition add_ship_delay :: "dataframe \<Rightarrow> dataframe" where
  "add_ship_delay df =
     (if {''Order Date'', ''Ship Date''} \<subseteq> set (columns df) then
        setitem df ''ShipDelayDays'' Numeric
          (map (\<lambda>(s, t). delay_days_cell s t)
             (zip (getitem df ''Ship Date'') (getitem df ''Order Date'')))
      else df)"

definition add_profit_margin :: "dataframe \<Rightarrow> dataframe" where
  "add_profit_margin df =
     (if {''Sales'', ''Profit''} \<subseteq> set (columns df) then
        setitem df ''ProfitMargin'' Numeric
          (profit_margin_column (getitem df ''Sales'') (getitem df ''Profit''))
      else df)"

definition feature_engineering :: "dataframe \<Rightarrow> dataframe" where
  "feature_engineering df = add_profit_margin (add_ship_delay (add_order_features df))"

text \<open>The cell of row \<open>r\<close> under the label \<open>c\<close>.\<close>

definition cell_of :: "dataframe \<Rightarrow> cell list \<Rightarrow> string \<Rightarrow> cell" where
  "cell_of df r c = (case index_of c (columns df) of Some i \<Rightarrow> r ! i | None \<Rightarrow> Null)"

section \<open>The KPI computer\<close>

text \<open>\<^verbatim>\<open>Series.sum()\<close> skips missing values; the sum of no values is 0.\<close>

definition num_val :: "cell \<Rightarrow> rat" where
  "num_val c = (case c of Num a \<Rightarrow> a | _ \<Rightarrow> 0)"

definition col_sum :: "cell list \<Rightarrow> rat" where
  "col_sum cs = sum_list (map num_val cs)"

definition ts_values :: "cell list \<Rightarrow> int list" where
  "ts_values cs = List.map_filter (\<lambda>c. case c of Ts t \<Rightarrow> Some t | _ \<Rightarrow> None) cs"

datatype kpi_value = KFloat rat | KDateRange string string

text \<open>
  The KPI dictionary.  \<^verbatim>\<open>min()\<close> and \<^verbatim>\<open>max()\<close> skip missing values.  The column under
  \<^verbatim>\<open>Order Date\<close> holds timestamps and missing values (the cleaner coerces it), so a value
  that is not missing is a timestamp.
\<close>

definition compute_kpis :: "dataframe \<Rightarrow> (string \<rightharpoonup> kpi_value)" where
  "compute_kpis df =
     (let k0 = Map.empty;
          k1 = (if ''Sales'' \<in> set (columns df)
                then k0(''total_sales'' \<mapsto> KFloat (col_sum (getitem df ''Sales''))) else k0);
          k2 = (if ''Profit'' \<in> set (columns df)
                then k1(''total_profit'' \<mapsto> KFloat (col_sum (getitem df ''Profit''))) else k1);
          k3 = (if {''Sales'', ''Profit''} \<subseteq> set (columns df) \<and> col_sum (getitem df ''Sales'') \<noteq> 0
                then k2(''overall_profit_margin'' \<mapsto>
                       KFloat (col_sum (getitem df ''Profit'') / col_sum (getitem df ''Sales'')))
                else k2)
      in if ''Order Date'' \<in> set (columns df) \<and> list_ex (\<lambda>c. c \<noteq> Null) (getitem df ''Order Date'')
         then (case ts_values (getitem df ''Order Date'') of
                 [] \<Rightarrow> k3
               | t # ts \<Rightarrow>
                   k3(''date_range'' \<mapsto>
                        KDateRange (strftime_ymd (fold min ts t)) (strftime_ymd (fold max ts t))))
         else k3)"

section \<open>The aggregator\<close>

text \<open>
  \<^verbatim>\<open>groupby\<close> leaves out the rows whose key is missing and orders the groups by key.
  Keys of one column are of one kind; strings are compared by code points.
\<close>

fun string_le :: "string \<Rightarrow> string \<Rightarrow> bool" where
  "string_le [] ys = True"
| "string_le (x # xs) [] = False"
| "string_le (x # xs) (y # ys) =
     ((of_char x :: nat) < of_char y \<or> (x = y \<and> string_le xs ys))"

fun cell_rank :: "cell \<Rightarrow> nat" where
  "cell_rank Null = 0"
| "cell_rank (Num a) = 1"
| "cell_rank (Ts t) = 2"
| "cell_rank (Str s) = 3"

fun cell_le :: "cell \<Rightarrow> cell \<Rightarrow> bool" where
  "cell_le (Num a) (Num b) = (a \<le> b)"
| "cell_le (Ts s) (Ts t) = (s \<le> t)"
| "cell_le (Str s) (Str t) = string_le s t"
| "cell_le x y = (cell_rank x \<le> cell_rank y)"

fun insert_by :: "('a \<Rightarrow> 'a \<Rightarrow> bool) \<Rightarrow> 'a \<Rightarrow> 'a list \<Rightarrow> 'a list" where
  "insert_by le x [] = [x]"
| "insert_by le x (y # ys) = (if le x y then x # y # ys else y # insert_by le x ys)"

definition sort_by :: "('a \<Rightarrow> 'a \<Rightarrow> bool) \<Rightarrow> 'a list \<Rightarrow> 'a list" where
  "sort_by le xs = foldr (insert_by le) xs []"

definition group_keys :: "cell list \<Rightarrow> cell list" where
  "group_keys ks = sort_by cell_le (keep_first (filter (\<lambda>k. k \<noteq> Null) ks))"

record group_row =
  key :: cell
  sales_sum :: rat
  profit_sum :: rat
  profit_margin :: "rat option"

text \<open>\<^verbatim>\<open>df.groupby(c)[["Sales", "Profit"]].sum()\<close>; the margin is filled in by \<^verbatim>\<open>assign\<close>.\<close>

definition groupby_sum :: "dataframe \<Rightarrow> string \<Rightarrow> group_row list" where
  "groupby_sum df c =
     map (\<lambda>k. \<lparr>key = k,
               sales_sum = col_sum (map (\<lambda>r. cell_of df r ''Sales'') (filter (\<lambda>r. cell_of df r c = k) (rows df))),
               profit_sum = col_sum (map (\<lambda>r. cell_of df r ''Profit'') (filter (\<lambda>r. cell_of df r c = k) (rows df))),
               profit_margin = None\<rparr>)
       (group_keys (getitem df c))"

definition assign_margin :: "group_row \<Rightarrow> group_row" where
  "assign_margin g =
     g\<lparr>profit_margin := (if sales_sum g \<noteq> 0 then Some (profit_sum g / sales_sum g) else None)\<rparr>"

text \<open>
  \<^verbatim>\<open>sort_values("Sales", ascending=False)\<close>: pandas reverses the rows, sorts them in
  ascending order, and reverses the result.  numpy's default sort does not fix the order
  of rows with equal keys; the model takes the stable order.
\<close>

definition sort_values_desc :: "group_row list \<Rightarrow> group_row list" where
  "sort_values_desc gs = rev (sort_key sales_sum (rev gs))"

definition aggr :: "dataframe \<Rightarrow> string \<Rightarrow> group_row list" where
  "aggr df c = sort_values_desc (map assign_margin (groupby_sum df c))"

definition group_tables :: "dataframe \<Rightarrow> (string \<rightharpoonup> group_row list)" where
  "group_tables df =
     (let g0 = Map.empty;
          g1 = (if {''Category'', ''Sales'', ''Profit''} \<subseteq> set (columns df)
                then g0(''by_category'' \<mapsto> aggr df ''Category'') else g0);
          g2 = (if {''Sub-Category'', ''Sales'', ''Profit''} \<subseteq> set (columns df)
                then g1(''by_subcategory'' \<mapsto> aggr df ''Sub-Category'') else g1);
          g3 = (if {''Region'', ''Sales'', ''Profit''} \<subseteq> set (columns df)
                then g2(''by_region'' \<mapsto> aggr df ''Region'') else g2)
      in if {''State'', ''Sales'', ''Profit''} \<subseteq> set (columns df)
         then g3(''by_state'' \<mapsto> aggr df ''State'') else g3)"

definition monthly_sales :: "dataframe \<Rightarrow> (cell \<times> rat) list option" where
  "monthly_sales df =
     (if {''OrderMonth'', ''Sales''} \<subseteq> set (columns df) then
        Some (sort_by (\<lambda>a b. cell_le (fst a) (fst b))
               (map (\<lambda>k. (k, col_sum (map (\<lambda>r. cell_of df r ''Sales'')
                                         (filter (\<lambda>r. cell_of df r ''OrderMonth'' = k) (rows df)))))
                  (group_keys (getitem df ''OrderMonth''))))
      else None)"

definition top_products :: "dataframe \<Rightarrow> group_row list option" where
  "top_products df =
     (if {''Product Name'', ''Sales'', ''Profit''} \<subseteq> set (columns df) then
        Some (take 10 (sort_values_desc (map assign_margin (groupby_sum df ''Product Name''))))
      else None)"

definition aggregates ::
  "dataframe \<Rightarrow> (string \<rightharpoonup> group_row list) \<times> (cell \<times> rat) list option \<times> group_row list option" where
  "aggregates df = (group_tables df, monthly_sales df, top_products df)"

section \<open>The data dictionary\<close>

record dict_row =
  column :: string
  dtype_of :: dtype
  n_missing :: nat
  sample_value :: "cell option"

text \<open>The data dictionary that \<^verbatim>\<open>save_artifacts\<close> builds: \<^verbatim>\<open>df.isna().sum()\<close> counts the
  missing values of a column.\<close>

definition data_dict :: "dataframe \<Rightarrow> dict_row list" where
  "data_dict df =
     map (\<lambda>i. \<lparr>column = columns df ! i,
               dtype_of = dtypes df ! i,
               n_missing = length (filter (\<lambda>c. c = Null) (column_at df i)),
               sample_value = (case filter (\<lambda>c. c \<noteq> Null) (column_at df i) of
                                 [] \<Rightarrow> None | v # vs \<Rightarrow> Some v)\<rparr>)
       [0..<length (columns df)]"

section \<open>The pipeline\<close>

text \<open>What \<^verbatim>\<open>main\<close> computes from the table the loader returns.\<close>

definition derived_table :: "pandas \<Rightarrow> dataframe \<Rightarrow> dataframe" where
  "derived_table lib df_raw = feature_engineering (basic_clean lib df_raw)"

section \<open>A reference library\<close>

text \<open>
  An instance of the library parameters, for evaluating the pipeline on concrete tables:
  dates are read from the form \<^verbatim>\<open>YYYY-MM-DD\<close>, numbers from decimal integers with
  an optional minus sign; every other string is coerced to a missing value.  Its
  \<^verbatim>\<open>astype(str)\<close> is that of pandas 2: a missing value becomes the string \<^verbatim>\<open>nan\<close>.
\<close>

definition digit_val :: "char \<Rightarrow> nat option" where
  "digit_val c =
     (let n = (of_char c :: nat) in if 48 \<le> n \<and> n \<le> 57 then Some (n - 48) else None)"

fun parse_digits :: "nat \<Rightarrow> string \<Rightarrow> nat option" where
  "parse_digits acc [] = Some acc"
| "parse_digits acc (c # cs) =
     (case digit_val c of None \<Rightarrow> None | Some v \<Rightarrow> parse_digits (10 * acc + v) cs)"

definition parse_nat :: "string \<Rightarrow> nat option" where
  "parse_nat s = (if s = [] then None else parse_digits 0 s)"

definition parse_int :: "string \<Rightarrow> int option" where
  "parse_int s =
     (case s of
        [] \<Rightarrow> None
      | c # cs \<Rightarrow>
          (if c = CHR ''-'' then map_option (\<lambda>n. - int n) (parse_nat cs)
           else map_option int (parse_nat s)))"

definition days_in_month :: "int \<Rightarrow> int \<Rightarrow> int" where
  "days_in_month y m =
     (if m = 2 then (if y mod 4 = 0 \<and> (y mod 100 \<noteq> 0 \<or> y mod 400 = 0) then 29 else 28)
      else if m \<in> {4, 6, 9, 11} then 30 else 31)"

definition parse_iso_date :: "string \<Rightarrow> int option" where
  "parse_iso_date s =
     (if length s = 10 \<and> s ! 4 = CHR ''-'' \<and> s ! 7 = CHR ''-'' then
        (case (parse_nat (take 4 s), parse_nat (take 2 (drop 5 s)), parse_nat (drop 8 s)) of
           (Some y, Some m, Some d) \<Rightarrow>
             (if 1678 \<le> y \<and> y \<le> 2261 \<and> 1 \<le> m \<and> m \<le> 12 \<and> 1 \<le> d \<and>
                 int d \<le> days_in_month (int y) (int m)
              then Some (days_from_civil (int y) (int m) (int d) * ns_per_day) else None)
         | _ \<Rightarrow> None)
      else None)"

definition ref_datetime_cell :: "cell \<Rightarrow> cell" where
  "ref_datetime_cell c =
     (case c of
        Str s \<Rightarrow> (case parse_iso_date (strip s) of Some t \<Rightarrow> Ts t | None \<Rightarrow> Null)
      | Ts t \<Rightarrow> (if ts_in_bounds t then Ts t else Null)
      | _ \<Rightarrow> Null)"

definition ref_numeric_cell :: "cell \<Rightarrow> cell" where
  "ref_numeric_cell c =
     (case c of
        Num a \<Rightarrow> Num a
      | Str s \<Rightarrow> (case parse_int (strip s) of Some i \<Rightarrow> Num (of_int i) | None \<Rightarrow> Null)
      | _ \<Rightarrow> Null)"

definition ref_astype_str :: "cell \<Rightarrow> cell" where
  "ref_astype_str c =
     (case c of
        Str s \<Rightarrow> Str s
      | Null \<Rightarrow> Str ''nan''
      | Num a \<Rightarrow> Str (if a = of_int \<lfloor>a\<rfloor> \<and> 0 \<le> a then decimal (nat \<lfloor>a\<rfloor>) else ''<float>'')
      | Ts t \<Rightarrow> Str (strftime_ymd t))"

definition ref_pandas :: pandas where
  "ref_pandas =
     \<lparr>to_datetime = map ref_datetime_cell,
      to_numeric = map ref_numeric_cell,
      astype_str = ref_astype_str\<rparr>"

text \<open>The same library with the \<^verbatim>\<open>astype(str)\<close> of pandas 3, which keeps a missing value
  missing.\<close>

definition ref_pandas_na :: pandas where
  "ref_pandas_na =
     \<lparr>to_datetime = map ref_datetime_cell,
      to_numeric = map ref_numeric_cell,
      astype_str = (\<lambda>c. case c of Null \<Rightarrow> Null | _ \<Rightarrow> ref_astype_str c)\<rparr>"

text \<open>The table of the two-row scenario, as \<^verbatim>\<open>read_csv\<close> returns it: the dates are still
  strings, the numbers are numbers.\<close>

definition scenario_raw :: dataframe where
  "scenario_raw =
     \<lparr>columns = [''Order Date'', ''Ship Date'', ''Sales'', ''Profit'', ''Category''],
      dtypes = [Object, Object, Numeric, Numeric, Object],
      rows = [[Str ''2023-01-05'', Str ''2023-01-10'', Num 100, Num 20, Str ''Tech''],
              [Str ''2023-01-20'', Str ''2023-01-25'', Num 50, Num (- 10), Str ''Tech'']]\<rparr>"

section \<open>Concrete inputs\<close>

text \<open>A file system with two files: a workbook without a sheet named \<^verbatim>\<open>Orders\<close>, and a
  text file.\<close>

definition demo_env :: io_env where
  "demo_env =
     \<lparr>path_exists = (\<lambda>p. p \<in> {[''data'', ''orders.xlsx''], [''data'', ''notes.txt'']}),
      read_csv = (\<lambda>p. Inl (ReaderError ''empty file'')),
      read_excel = (\<lambda>p sheet. if sheet = Some ''Orders''
                      then Inl (ReaderError ''Worksheet named Orders not found'')
                      else Inr scenario_raw)\<rparr>"

text \<open>A file system whose only file is a workbook that cannot be read at all.\<close>

definition broken_env :: io_env where
  "broken_env =
     \<lparr>path_exists = (\<lambda>p. p = [''data'', ''broken.xlsx'']),
      read_csv = (\<lambda>p. Inl (ReaderError ''empty file'')),
      read_excel = (\<lambda>p sheet. Inl (ReaderError ''File is not a zip file''))\<rparr>"

text \<open>
  A raw table with padded labels and strings, a repeated order (the third row equals the
  first after normalisation), an unreadable date, an unreadable amount, a missing region,
  and an order with Sales 0.
\<close>

definition demo_raw :: dataframe where
  "demo_raw =
     \<lparr>columns = ['' Order Date'', ''Ship Date '', ''Sales'', ''Profit'', ''Category'',
                 ''Product Name'', ''Region''],
      dtypes = [Object, Object, Object, Numeric, Object, Object, Object],
      rows =
        [[Str ''2023-01-05'', Str ''2023-01-10'', Str ''100'', Num 20, Str '' Tech '',
          Str ''Phone'', Str ''West''],
         [Str ''2023-01-20'', Str ''2023-01-25'', Str ''50'', Num (- 10), Str ''Tech'',
          Str ''Laptop'', Null],
         [Str ''2023-01-05'', Str ''2023-01-10'', Str ''100'', Num 20, Str ''Tech'',
          Str ''Phone '', Str ''West''],
         [Str ''not a date'', Str ''2023-02-01'', Str ''70'', Num 7, Str ''Office'',
          Str ''Paper'', Str ''East''],
         [Str ''2023-02-03'', Str ''2023-02-04'', Str ''0'', Num 5, Str ''Office'',
          Str ''Pen'', Str ''East''],
         [Str ''2023-02-10'', Str ''2023-02-12'', Str ''n/a'', Num 1, Str ''Office'',
          Str ''Ink'', Str ''East'']]\<rparr>"

text \<open>A table without any of the essential columns, with a missing value.\<close>

definition demo_plain :: dataframe where
  "demo_plain =
     \<lparr>columns = [''Category'', ''Units''],
      dtypes = [Object, Numeric],
      rows = [[Str ''Tech'', Num 1], [Null, Null], [Str ''Office'', Null]]\<rparr>"

text \<open>A table of twelve products in fifteen orders, one of them without a product
  name.\<close>

definition demo_products :: dataframe where
  "demo_products =
     \<lparr>columns = [''Product Name'', ''Sales'', ''Profit''],
      dtypes = [Object, Numeric, Numeric],
      rows =
        [[Str ''P01'', Num 40, Num 4],
         [Str ''P02'', Num 120, Num (- 6)],
         [Str ''P03'', Num 10, Num 1],
         [Str ''P04'', Num 70, Num 7],
         [Str ''P05'', Num 0, Num 2],
         [Str ''P06'', Num 90, Num 9],
         [Str ''P07'', Num 30, Num 3],
         [Str ''P08'', Num 110, Num 11],
         [Str ''P09'', Num 20, Num 2],
         [Str ''P10'', Num 60, Num 6],
         [Str ''P11'', Num 100, Num 10],
         [Str ''P12'', Num 50, Num 5],
         [Str ''P03'', Num 95, Num 4],
         [Null, Num 999, Num 9],
         [Str ''P01'', Num 5, Num (- 1)]]\<rparr>"

text \<open>Its ten products with the greatest sums of Sales.\<close>

definition demo_top10 :: "group_row list" where
  "demo_top10 =
     [\<lparr>key = Str ''P02'', sales_sum = 120, profit_sum = - 6, profit_margin = Some (- (1 / 20))\<rparr>,
      \<lparr>key = Str ''P08'', sales_sum = 110, profit_sum = 11, profit_margin = Some (1 / 10)\<rparr>,
      \<lparr>key = Str ''P03'', sales_sum = 105, profit_sum = 5, profit_margin = Some (1 / 21)\<rparr>,
      \<lparr>key = Str ''P11'', sales_sum = 100, profit_sum = 10, profit_margin = Some (1 / 10)\<rparr>,
      \<lparr>key = Str ''P06'', sales_sum = 90, profit_sum = 9, profit_margin = Some (1 / 10)\<rparr>,
      \<lparr>key = Str ''P04'', sales_sum = 70, profit_sum = 7, profit_margin = Some (1 / 10)\<rparr>,
      \<lparr>key = Str ''P10'', sales_sum = 60, profit_sum = 6, profit_margin = Some (1 / 10)\<rparr>,
      \<lparr>key = Str ''P12'', sales_sum = 50, profit_sum = 5, profit_margin = Some (1 / 10)\<rparr>,
      \<lparr>key = Str ''P01'', sales_sum = 45, profit_sum = 3, profit_margin = Some (1 / 15)\<rparr>,
      \<lparr>key = Str ''P07'', sales_sum = 30, profit_sum = 3, profit_margin = Some (1 / 10)\<rparr>]"

section \<open>Columns and rows\<close>

lemma index_of_Some: "index_of x xs = Some i \<Longrightarrow> i < length xs \<and> xs ! i = x"
  by (induction xs arbitrary: i) (auto split: if_splits)

lemma index_of_None: "index_of x xs = None \<longleftrightarrow> x \<notin> set xs"
  by (induction xs) auto

lemma index_of_mem: "x \<in> set xs \<Longrightarrow> \<exists>i. index_of x xs = Some i"
  using index_of_None [of x xs] by (cases "index_of x xs") auto

lemma index_of_distinct: "distinct xs \<Longrightarrow> i < length xs \<Longrightarrow> index_of (xs ! i) xs = Some i"
proof (induction xs arbitrary: i)
  case Nil
  then show ?case by simp
next
  case (Cons y ys)
  show ?case
  proof (cases i)
    case 0
    then show ?thesis by simp
  next
    case (Suc j)
    with Cons.prems have "ys ! j \<in> set ys" "y \<notin> set ys" by auto
    then have "ys ! j \<noteq> y" by auto
    with Cons Suc show ?thesis by simp
  qed
qed

lemma index_of_append:
  "index_of x (xs @ [y]) =
     (case index_of x xs of Some i \<Rightarrow> Some i | None \<Rightarrow> if x = y then Some (length xs) else None)"
  by (induction xs) (auto split: option.splits)

lemma rectangular_row: "rectangular df \<Longrightarrow> r \<in> set (rows df) \<Longrightarrow> length r = length (columns df)"
  by (simp add: rectangular_def list_all_iff)

lemma columns_set_column [simp]: "columns (set_column df i d vs) = columns df"
  by (simp add: set_column_def)

lemma dtypes_set_column [simp]: "dtypes (set_column df i d vs) = (dtypes df)[i := d]"
  by (simp add: set_column_def)

lemma length_rows_set_column:
  "length vs = length (rows df) \<Longrightarrow> length (rows (set_column df i d vs)) = length (rows df)"
  by (simp add: set_column_def)

lemma nth_rows_set_column:
  "length vs = length (rows df) \<Longrightarrow> k < length (rows df) \<Longrightarrow>
   rows (set_column df i d vs) ! k = (rows df ! k)[i := vs ! k]"
  by (simp add: set_column_def)

lemma rectangular_set_column: "rectangular df \<Longrightarrow> rectangular (set_column df i d vs)"
  by (auto simp: rectangular_def set_column_def list_all_iff dest!: set_zip_leftD)

lemma column_at_set_column:
  assumes "rectangular df" and "length vs = length (rows df)" and "i < length (columns df)"
  shows "column_at (set_column df i d vs) j = (if j = i then vs else column_at df j)"
proof (rule nth_equalityI)
  show "length (column_at (set_column df i d vs) j) = length (if j = i then vs else column_at df j)"
    using assms by (simp add: column_at_def set_column_def)
next
  fix k assume "k < length (column_at (set_column df i d vs) j)"
  then have k: "k < length (rows df)"
    using assms by (simp add: column_at_def set_column_def)
  then have "length (rows df ! k) = length (columns df)"
    using assms(1) by (simp add: rectangular_row)
  with k assms show "column_at (set_column df i d vs) j ! k = (if j = i then vs else column_at df j) ! k"
    by (simp add: column_at_def nth_rows_set_column length_rows_set_column)
qed

lemma set_column_same:
  assumes "dtypes df ! i = d" and "column_at df i = vs"
  shows "set_column df i d vs = df"
proof -
  have "map (\<lambda>(r, v). r[i := v]) (zip rs (map (\<lambda>r. r ! i) rs)) = rs" for rs :: "cell list list"
    by (induction rs) auto
  moreover have "vs = map (\<lambda>r. r ! i) (rows df)"
    using assms(2) by (simp add: column_at_def)
  ultimately have "map (\<lambda>(r, v). r[i := v]) (zip (rows df) vs) = rows df"
    by metis
  moreover have "(dtypes df)[i := d] = dtypes df"
    using assms(1) list_update_id [of "dtypes df" i] by simp
  ultimately show ?thesis
    by (simp add: set_column_def)
qed

section \<open>Column assignment in a loop\<close>

lemma assign_by_name_props:
  assumes "rectangular df" and "\<And>xs. length (f xs) = length xs"
  shows "columns (assign_by_name f d c df) = columns df"
    and "rectangular (assign_by_name f d c df)"
    and "length (rows (assign_by_name f d c df)) = length (rows df)"
  using assms
  by (auto simp: assign_by_name_def rectangular_set_column length_rows_set_column column_at_def
      split: option.splits)

lemma assign_by_name_column:
  assumes "rectangular df" and "\<And>xs. length (f xs) = length xs" and "distinct (columns df)"
    and "j < length (columns df)"
  shows "column_at (assign_by_name f d c df) j =
           (if columns df ! j = c then f (column_at df j) else column_at df j)"
    and "dtypes (assign_by_name f d c df) ! j = (if columns df ! j = c then d else dtypes df ! j)"
proof -
  show "column_at (assign_by_name f d c df) j =
           (if columns df ! j = c then f (column_at df j) else column_at df j)"
  proof (cases "index_of c (columns df)")
    case None
    then have "c \<notin> set (columns df)" by (simp add: index_of_None)
    with assms(4) have "columns df ! j \<noteq> c" by auto
    with None show ?thesis by (simp add: assign_by_name_def)
  next
    case (Some i)
    then have i: "i < length (columns df)" "columns df ! i = c"
      by (auto dest: index_of_Some)
    have len: "length (f (column_at df i)) = length (rows df)"
      by (simp add: assms(2) column_at_def)
    have "columns df ! j = c \<longleftrightarrow> j = i"
      using i assms(3,4) by (auto simp: nth_eq_iff_index_eq)
    with Some i len assms(1) show ?thesis
      by (simp add: assign_by_name_def column_at_set_column)
  qed
  show "dtypes (assign_by_name f d c df) ! j = (if columns df ! j = c then d else dtypes df ! j)"
  proof (cases "index_of c (columns df)")
    case None
    then have "c \<notin> set (columns df)" by (simp add: index_of_None)
    with assms(4) have "columns df ! j \<noteq> c" by auto
    with None show ?thesis by (simp add: assign_by_name_def)
  next
    case (Some i)
    then have i: "i < length (columns df)" "columns df ! i = c"
      by (auto dest: index_of_Some)
    have "columns df ! j = c \<longleftrightarrow> j = i"
      using i assms(3,4) by (auto simp: nth_eq_iff_index_eq)
    moreover have "length (dtypes df) = length (columns df)"
      using assms(1) by (simp add: rectangular_def)
    ultimately show ?thesis
      using Some i assms(4) by (simp add: assign_by_name_def)
  qed
qed

lemma fold_assign_props:
  assumes "rectangular df" and "\<And>xs. length (f xs) = length xs"
  shows "columns (fold (assign_by_name f d) cs df) = columns df \<and>
         rectangular (fold (assign_by_name f d) cs df) \<and>
         length (rows (fold (assign_by_name f d) cs df)) = length (rows df)"
  using assms(1)
proof (induction cs arbitrary: df)
  case Nil
  then show ?case by simp
next
  case (Cons c cs)
  from assign_by_name_props [OF Cons.prems assms(2), of d c] Cons.IH [of "assign_by_name f d c df"]
  show ?case by simp
qed

lemma fold_assign_column:
  assumes "rectangular df" and "\<And>xs. length (f xs) = length xs" and "distinct (columns df)"
    and "distinct cs" and "j < length (columns df)"
  shows "column_at (fold (assign_by_name f d) cs df) j =
           (if columns df ! j \<in> set cs then f (column_at df j) else column_at df j) \<and>
         dtypes (fold (assign_by_name f d) cs df) ! j =
           (if columns df ! j \<in> set cs then d else dtypes df ! j)"
  using assms(1,3,4,5)
proof (induction cs arbitrary: df)
  case Nil
  then show ?case by simp
next
  case (Cons c cs)
  let ?df1 = "assign_by_name f d c df"
  note p = assign_by_name_props [OF Cons.prems(1) assms(2), of d c]
  note q = assign_by_name_column [OF Cons.prems(1) assms(2) Cons.prems(2) Cons.prems(4), of d c]
  have ih: "column_at (fold (assign_by_name f d) cs ?df1) j =
           (if columns ?df1 ! j \<in> set cs then f (column_at ?df1 j) else column_at ?df1 j) \<and>
         dtypes (fold (assign_by_name f d) cs ?df1) ! j =
           (if columns ?df1 ! j \<in> set cs then d else dtypes ?df1 ! j)"
    using Cons.IH [of ?df1] p Cons.prems by simp
  have "c \<notin> set cs" using Cons.prems(3) by simp
  with ih p(1) q show ?case by auto
qed

lemma fold_assign_id:
  assumes "\<And>c i. c \<in> set cs \<Longrightarrow> index_of c (columns df) = Some i \<Longrightarrow>
             f (column_at df i) = column_at df i \<and> dtypes df ! i = d"
  shows "fold (assign_by_name f d) cs df = df"
  using assms
proof (induction cs)
  case Nil
  then show ?case by simp
next
  case (Cons c cs)
  have "assign_by_name f d c df = df"
  proof (cases "index_of c (columns df)")
    case None
    then show ?thesis by (simp add: assign_by_name_def)
  next
    case (Some i)
    with Cons.prems [of c i] have "f (column_at df i) = column_at df i" "dtypes df ! i = d"
      by simp_all
    with Some show ?thesis
      by (simp add: assign_by_name_def set_column_same)
  qed
  moreover have "fold (assign_by_name f d) cs df = df"
  proof (rule Cons.IH)
    fix c' i assume "c' \<in> set cs" "index_of c' (columns df) = Some i"
    then show "f (column_at df i) = column_at df i \<and> dtypes df ! i = d"
      using Cons.prems [of c' i] by simp
  qed
  ultimately show ?case by simp
qed

section \<open>Stripping and object columns\<close>

lemma dropWhile_rev_dropWhile:
  assumes "dropWhile P u = u"
  shows "dropWhile P (rev (dropWhile P (rev u))) = rev (dropWhile P (rev u))"
proof (cases "dropWhile P (rev u) = []")
  case True
  show ?thesis unfolding True by simp
next
  case False
  let ?v = "dropWhile P (rev u)"
  have u: "u = rev ?v @ rev (takeWhile P (rev u))"
    by (metis rev_append rev_rev_ident takeWhile_dropWhile_id)
  from False have nv: "rev ?v \<noteq> []" by simp
  then have "hd u = hd (rev ?v)"
    using u by (metis hd_append2)
  moreover have "u \<noteq> []" using u nv by auto
  then have "\<not> P (hd u)"
    using assms by (metis dropWhile_eq_self_iff)
  ultimately show ?thesis
    using nv by (simp add: dropWhile_eq_self_iff)
qed

lemma strip_idem: "strip (strip s) = strip s"
proof -
  let ?u = "dropWhile is_space s"
  have 1: "dropWhile is_space (strip s) = strip s"
    unfolding strip_def by (rule dropWhile_rev_dropWhile) simp
  show ?thesis
    by (simp add: strip_def [of "strip s"] 1) (simp add: strip_def)
qed

lemma object_columns_distinct:
  assumes "distinct (columns df)"
  shows "distinct (object_columns df)"
proof -
  have "distinct (map fst (zip (columns df) (dtypes df)))"
    using assms by (simp add: map_fst_zip_take)
  then show ?thesis
    unfolding object_columns_def by (rule distinct_map_filter)
qed

lemma object_columns_mem:
  assumes "distinct (columns df)" and "length (dtypes df) = length (columns df)"
    and "j < length (columns df)"
  shows "columns df ! j \<in> set (object_columns df) \<longleftrightarrow> dtypes df ! j = Object"
proof
  assume "columns df ! j \<in> set (object_columns df)"
  then have "(columns df ! j, Object) \<in> set (zip (columns df) (dtypes df))"
    by (auto simp: object_columns_def)
  then obtain k where k: "k < length (columns df)" "columns df ! k = columns df ! j"
      "dtypes df ! k = Object"
    by (auto simp: in_set_zip)
  with assms have "k = j" by (simp add: nth_eq_iff_index_eq)
  with k show "dtypes df ! j = Object" by simp
next
  assume "dtypes df ! j = Object"
  with assms have "(columns df ! j, Object) \<in> set (zip (columns df) (dtypes df))"
    by (auto simp: in_set_zip)
  then show "columns df ! j \<in> set (object_columns df)"
    by (force simp: object_columns_def)
qed

lemma numeric_not_date: "c \<in> set numeric_names \<Longrightarrow> \<not> is_date_column c"
  by (auto simp: numeric_names_def is_date_column_def lower_def lower_char_def)

lemma list_all_column_at: "list_all P (column_at df j) \<longleftrightarrow> (\<forall>r \<in> set (rows df). P (r ! j))"
  by (simp add: column_at_def list_all_iff)

section \<open>The steps of the cleaner\<close>

lemma pandas_okD:
  assumes "pandas_ok lib"
  shows "length (to_datetime lib xs) = length xs"
    and "list_all datetime_cell (to_datetime lib xs)"
    and "list_all datetime_cell xs \<Longrightarrow> to_datetime lib xs = xs"
    and "length (to_numeric lib xs) = length xs"
    and "list_all numeric_cell (to_numeric lib xs)"
    and "list_all numeric_cell xs \<Longrightarrow> to_numeric lib xs = xs"
    and "text_cell (astype_str lib c)"
    and "astype_str lib (astype_str lib c) = astype_str lib c"
    and "astype_str lib (Str s) = Str s"
  using assms by (simp_all add: pandas_ok_def)

lemma normalize_cell_stripped:
  assumes "pandas_ok lib"
  shows "stripped_cell (normalize_cell lib c)"
  using pandas_okD(7) [OF assms, of c]
  by (cases "astype_str lib c") (simp_all add: normalize_cell_def str_strip_def stripped_cell_def strip_idem)

lemma normalize_cell_idem:
  assumes "pandas_ok lib"
  shows "normalize_cell lib (normalize_cell lib c) = normalize_cell lib c"
proof (cases "astype_str lib c")
  case Null
  with pandas_okD(8) [OF assms, of c] have "astype_str lib Null = Null" by simp
  with Null show ?thesis by (simp add: normalize_cell_def str_strip_def)
next
  case (Str s)
  then show ?thesis
    by (simp add: normalize_cell_def str_strip_def pandas_okD(9) [OF assms] strip_idem)
next
  case (Num a)
  with pandas_okD(7) [OF assms, of c] show ?thesis by simp
next
  case (Ts t)
  with pandas_okD(7) [OF assms, of c] show ?thesis by simp
qed

lemma object_cellsI:
  assumes "\<And>j. j < length (columns df) \<Longrightarrow> dtypes df ! j = Object \<Longrightarrow>
             list_all P (column_at df j)"
  shows "object_cells P df"
  unfolding object_cells_def list_all_iff [of _ "[0..<length (columns df)]"] using assms by simp

lemma object_cellsD:
  assumes "object_cells P df" and "j < length (columns df)" and "dtypes df ! j = Object"
  shows "list_all P (column_at df j)"
  using assms unfolding object_cells_def list_all_iff [of _ "[0..<length (columns df)]"] by simp

lemma object_cells_subrows:
  assumes "object_cells P df" and "columns df' = columns df" and "dtypes df' = dtypes df"
    and "set (rows df') \<subseteq> set (rows df)"
  shows "object_cells P df'"
proof (rule object_cellsI)
  fix j assume "j < length (columns df')" "dtypes df' ! j = Object"
  then have "list_all P (column_at df j)"
    using assms(1,2,3) by (intro object_cellsD) simp_all
  then show "list_all P (column_at df' j)"
    using assms(4) by (auto simp: list_all_column_at)
qed

lemma strip_columns_props:
  assumes "wf_frame df"
  shows "rectangular (strip_columns df)" and "distinct (columns (strip_columns df))"
    and "rows (strip_columns df) = rows df" and "dtypes (strip_columns df) = dtypes df"
    and "columns (strip_columns df) = map strip (columns df)"
  using assms by (simp_all add: wf_frame_def rectangular_def strip_columns_def)

lemma typed_frameI:
  assumes "\<And>j. j < length (columns df) \<Longrightarrow> is_date_column (columns df ! j) \<Longrightarrow>
             dtypes df ! j = Datetime \<and> list_all datetime_cell (column_at df j)"
    and "\<And>j. j < length (columns df) \<Longrightarrow> columns df ! j \<in> set numeric_names \<Longrightarrow>
             dtypes df ! j = Numeric \<and> list_all numeric_cell (column_at df j)"
    and "\<And>j. j < length (columns df) \<Longrightarrow> dtypes df ! j = Object \<Longrightarrow>
             list_all stripped_cell (column_at df j)"
  shows "typed_frame df"
  unfolding typed_frame_def list_all_iff [of _ "[0..<length (columns df)]"] using assms by simp

lemma typed_frameD:
  assumes "typed_frame df" and "j < length (columns df)"
  shows "is_date_column (columns df ! j) \<Longrightarrow>
             dtypes df ! j = Datetime \<and> list_all datetime_cell (column_at df j)"
    and "columns df ! j \<in> set numeric_names \<Longrightarrow>
             dtypes df ! j = Numeric \<and> list_all numeric_cell (column_at df j)"
    and "dtypes df ! j = Object \<Longrightarrow> list_all stripped_cell (column_at df j)"
  using assms unfolding typed_frame_def list_all_iff [of _ "[0..<length (columns df)]"] by simp_all

lemma typed_frame_subrows:
  assumes "typed_frame df" and "columns df' = columns df" and "dtypes df' = dtypes df"
    and "set (rows df') \<subseteq> set (rows df)"
  shows "typed_frame df'"
proof (rule typed_frameI)
  fix j assume j: "j < length (columns df')"
  then have j': "j < length (columns df)" using assms(2) by simp
  have sub: "list_all P (column_at df j) \<Longrightarrow> list_all P (column_at df' j)" for P
    using assms(4) by (auto simp: list_all_column_at)
  show "is_date_column (columns df' ! j) \<Longrightarrow>
          dtypes df' ! j = Datetime \<and> list_all datetime_cell (column_at df' j)"
    using typed_frameD(1) [OF assms(1) j'] sub assms(2,3) by simp
  show "columns df' ! j \<in> set numeric_names \<Longrightarrow>
          dtypes df' ! j = Numeric \<and> list_all numeric_cell (column_at df' j)"
    using typed_frameD(2) [OF assms(1) j'] sub assms(2,3) by simp
  show "dtypes df' ! j = Object \<Longrightarrow> list_all stripped_cell (column_at df' j)"
    using typed_frameD(3) [OF assms(1) j'] sub assms(2,3) by simp
qed

lemma coerce_dates_props:
  assumes "rectangular df" and "distinct (columns df)" and "pandas_ok lib"
  shows "columns (coerce_dates lib df) = columns df"
    and "rectangular (coerce_dates lib df)"
    and "length (rows (coerce_dates lib df)) = length (rows df)"
    and "j < length (columns df) \<Longrightarrow>
           column_at (coerce_dates lib df) j =
             (if is_date_column (columns df ! j) then to_datetime lib (column_at df j)
              else column_at df j)"
    and "j < length (columns df) \<Longrightarrow>
           dtypes (coerce_dates lib df) ! j =
             (if is_date_column (columns df ! j) then Datetime else dtypes df ! j)"
proof -
  note len = pandas_okD(1) [OF assms(3)]
  note p = fold_assign_props [of df "to_datetime lib" Datetime "filter is_date_column (columns df)",
      OF assms(1) len]
  show "columns (coerce_dates lib df) = columns df" "rectangular (coerce_dates lib df)"
    "length (rows (coerce_dates lib df)) = length (rows df)"
    using p by (simp_all add: coerce_dates_def)
  have d: "distinct (filter is_date_column (columns df))"
    using assms(2) by simp
  assume j: "j < length (columns df)"
  note q = fold_assign_column [of df "to_datetime lib" "filter is_date_column (columns df)" j Datetime,
      OF assms(1) len assms(2) d j]
  show "column_at (coerce_dates lib df) j =
             (if is_date_column (columns df ! j) then to_datetime lib (column_at df j)
              else column_at df j)"
    using q j by (simp add: coerce_dates_def)
  show "dtypes (coerce_dates lib df) ! j =
             (if is_date_column (columns df ! j) then Datetime else dtypes df ! j)"
    using q j by (simp add: coerce_dates_def)
qed

lemma coerce_numerics_props:
  assumes "rectangular df" and "distinct (columns df)" and "pandas_ok lib"
  shows "columns (coerce_numerics lib df) = columns df"
    and "rectangular (coerce_numerics lib df)"
    and "length (rows (coerce_numerics lib df)) = length (rows df)"
    and "j < length (columns df) \<Longrightarrow>
           column_at (coerce_numerics lib df) j =
             (if columns df ! j \<in> set numeric_names then to_numeric lib (column_at df j)
              else column_at df j)"
    and "j < length (columns df) \<Longrightarrow>
           dtypes (coerce_numerics lib df) ! j =
             (if columns df ! j \<in> set numeric_names then Numeric else dtypes df ! j)"
proof -
  let ?cs = "filter (\<lambda>c. c \<in> set (columns df)) numeric_names"
  note len = pandas_okD(4) [OF assms(3)]
  note p = fold_assign_props [of df "to_numeric lib" Numeric ?cs, OF assms(1) len]
  show "columns (coerce_numerics lib df) = columns df" "rectangular (coerce_numerics lib df)"
    "length (rows (coerce_numerics lib df)) = length (rows df)"
    using p by (simp_all add: coerce_numerics_def)
  have d: "distinct ?cs"
    by (rule distinct_filter) (simp add: numeric_names_def)
  assume j: "j < length (columns df)"
  note q = fold_assign_column [of df "to_numeric lib" ?cs j Numeric, OF assms(1) len assms(2) d j]
  show "column_at (coerce_numerics lib df) j =
             (if columns df ! j \<in> set numeric_names then to_numeric lib (column_at df j)
              else column_at df j)"
    using q j by (simp add: coerce_numerics_def)
  show "dtypes (coerce_numerics lib df) ! j =
             (if columns df ! j \<in> set numeric_names then Numeric else dtypes df ! j)"
    using q j by (simp add: coerce_numerics_def)
qed

lemma normalize_strings_props:
  assumes "rectangular df" and "distinct (columns df)"
  shows "columns (normalize_strings lib df) = columns df"
    and "rectangular (normalize_strings lib df)"
    and "length (rows (normalize_strings lib df)) = length (rows df)"
    and "j < length (columns df) \<Longrightarrow>
           column_at (normalize_strings lib df) j =
             (if dtypes df ! j = Object then map (normalize_cell lib) (column_at df j)
              else column_at df j)"
    and "j < length (columns df) \<Longrightarrow> dtypes (normalize_strings lib df) ! j = dtypes df ! j"
proof -
  have len: "\<And>xs. length (map (normalize_cell lib) xs) = length xs" by simp
  note p = fold_assign_props [of df "map (normalize_cell lib)" Object "object_columns df",
      OF assms(1) len]
  show "columns (normalize_strings lib df) = columns df" "rectangular (normalize_strings lib df)"
    "length (rows (normalize_strings lib df)) = length (rows df)"
    using p by (simp_all add: normalize_strings_def)
  have d: "distinct (object_columns df)"
    using assms(2) by (rule object_columns_distinct)
  have l: "length (dtypes df) = length (columns df)"
    using assms(1) by (simp add: rectangular_def)
  assume j: "j < length (columns df)"
  note m = object_columns_mem [OF assms(2) l j]
  note q = fold_assign_column [of df "map (normalize_cell lib)" "object_columns df" j Object,
      OF assms(1) len assms(2) d j]
  show "column_at (normalize_strings lib df) j =
             (if dtypes df ! j = Object then map (normalize_cell lib) (column_at df j)
              else column_at df j)"
    using q m by (simp add: normalize_strings_def)
  show "dtypes (normalize_strings lib df) ! j = dtypes df ! j"
    using q m by (simp add: normalize_strings_def)
qed

lemma coerced_typed:
  assumes "wf_frame df" and "pandas_ok lib"
  defines "df4 \<equiv> normalize_strings lib (coerce_numerics lib (coerce_dates lib (strip_columns df)))"
  shows "columns df4 = map strip (columns df)" and "rectangular df4" and "distinct (columns df4)"
    and "length (rows df4) = length (rows df)" and "typed_frame df4"
    and "(\<And>c. P (normalize_cell lib c)) \<Longrightarrow> object_cells P df4"
proof -
  define df1 where "df1 = strip_columns df"
  define df2 where "df2 = coerce_dates lib df1"
  define df3 where "df3 = coerce_numerics lib df2"
  have df4: "df4 = normalize_strings lib df3"
    by (simp add: df4_def df3_def df2_def df1_def)
  note s1 = strip_columns_props [OF assms(1), folded df1_def]
  note s2 = coerce_dates_props [OF s1(1) s1(2) assms(2), folded df2_def]
  have r2: "rectangular df2" and d2: "distinct (columns df2)"
    using s2(1,2) s1(2) by simp_all
  note s3 = coerce_numerics_props [OF r2 d2 assms(2), folded df3_def]
  have r3: "rectangular df3" and d3: "distinct (columns df3)"
    using s3(1,2) d2 by simp_all
  note s4 = normalize_strings_props [OF r3 d3, where lib = lib, folded df4]
  have cols: "columns df4 = columns df1" "columns df3 = columns df1" "columns df2 = columns df1"
    using s2(1) s3(1) s4(1) by simp_all
  show "columns df4 = map strip (columns df)"
    using cols s1(5) by simp
  show "rectangular df4" by (rule s4(2))
  show "distinct (columns df4)" using cols s1(2) by simp
  show "length (rows df4) = length (rows df)"
    using s4(3) s3(3) s2(3) s1(3) by simp
  show "typed_frame df4"
  proof (rule typed_frameI)
    fix j assume "j < length (columns df4)"
    then have j: "j < length (columns df1)" "j < length (columns df2)" "j < length (columns df3)"
      using cols by simp_all
    note c2 = s2(4,5) [OF j(1)]
    note c3 = s3(4,5) [OF j(2)]
    note c4 = s4(4,5) [OF j(3)]
    show "is_date_column (columns df4 ! j) \<Longrightarrow>
            dtypes df4 ! j = Datetime \<and> list_all datetime_cell (column_at df4 j)"
    proof -
      assume dt: "is_date_column (columns df4 ! j)"
      then have nn: "columns df1 ! j \<notin> set numeric_names"
        using numeric_not_date cols by auto
      from dt cols have "dtypes df2 ! j = Datetime" "list_all datetime_cell (column_at df2 j)"
        using c2 pandas_okD(2) [OF assms(2)] by simp_all
      with nn cols have "dtypes df3 ! j = Datetime" "list_all datetime_cell (column_at df3 j)"
        using c3 by simp_all
      then show ?thesis using c4 by simp
    qed
    show "columns df4 ! j \<in> set numeric_names \<Longrightarrow>
            dtypes df4 ! j = Numeric \<and> list_all numeric_cell (column_at df4 j)"
    proof -
      assume "columns df4 ! j \<in> set numeric_names"
      with cols have "dtypes df3 ! j = Numeric" "list_all numeric_cell (column_at df3 j)"
        using c3 pandas_okD(5) [OF assms(2)] by simp_all
      then show ?thesis using c4 by simp
    qed
    show "dtypes df4 ! j = Object \<Longrightarrow> list_all stripped_cell (column_at df4 j)"
    proof -
      assume "dtypes df4 ! j = Object"
      then have "column_at df4 j = map (normalize_cell lib) (column_at df3 j)"
        using c4 by simp
      then show ?thesis
        by (simp add: list_all_iff normalize_cell_stripped [OF assms(2)])
    qed
  qed
  show "object_cells P df4" if p: "\<And>c. P (normalize_cell lib c)"
  proof (rule object_cellsI)
    fix j assume "j < length (columns df4)" and o: "dtypes df4 ! j = Object"
    then have j: "j < length (columns df3)"
      using cols by simp
    from o s4(5) [OF j] have "dtypes df3 ! j = Object" by simp
    with s4(4) [OF j] have "column_at df4 j = map (normalize_cell lib) (column_at df3 j)"
      by simp
    then show "list_all P (column_at df4 j)"
      by (simp add: list_all_iff p)
  qed
qed

lemma keep_first_props:
  "set (keep_first xs) = set xs" "distinct (keep_first xs)" "distinct xs \<Longrightarrow> keep_first xs = xs"
  by (simp_all add: keep_first_def distinct_remdups_id)

lemma drop_duplicates_props:
  shows "columns (drop_duplicates df) = columns df"
    and "dtypes (drop_duplicates df) = dtypes df"
    and "set (rows (drop_duplicates df)) = set (rows df)"
    and "columns df \<noteq> [] \<Longrightarrow> distinct (rows (drop_duplicates df))"
    and "columns df = [] \<or> distinct (rows df) \<Longrightarrow> drop_duplicates df = df"
  by (auto simp: drop_duplicates_def keep_first_props)

lemma drop_missing_essential_props:
  shows "columns (drop_missing_essential df) = columns df"
    and "dtypes (drop_missing_essential df) = dtypes df"
    and "rows (drop_missing_essential df) = filter (notna_in df (essential df)) (rows df)"
  by (auto simp: drop_missing_essential_def dropna_subset_def notna_in_def)

lemma rectangular_subrows:
  assumes "rectangular df" and "columns df' = columns df" and "dtypes df' = dtypes df"
    and "set (rows df') \<subseteq> set (rows df)"
  shows "rectangular df'"
  using assms by (auto simp: rectangular_def list_all_iff)

lemma strip_columns_id: "\<forall>c \<in> set (columns df). strip c = c \<Longrightarrow> strip_columns df = df"
  by (simp add: strip_columns_def map_idI)

lemma basic_clean_invariant:
  assumes "wf_frame df" and "pandas_ok lib"
  defines "c \<equiv> basic_clean lib df"
  shows "rectangular c" and "distinct (columns c)" and "\<forall>x \<in> set (columns c). strip x = x"
    and "typed_frame c" and "columns c \<noteq> [] \<longrightarrow> distinct (rows c)"
    and "\<forall>r \<in> set (rows c). notna_in c (essential c) r"
    and "columns c = map strip (columns df)"
    and "(\<And>x. P (normalize_cell lib x)) \<Longrightarrow> object_cells P c"
proof -
  define df4 where "df4 = normalize_strings lib (coerce_numerics lib (coerce_dates lib (strip_columns df)))"
  define df5 where "df5 = drop_duplicates df4"
  have c: "c = drop_missing_essential df5"
    by (simp add: c_def basic_clean_def clean_until_dedup_def df5_def df4_def)
  note t = coerced_typed [OF assms(1,2), folded df4_def]
  note d = drop_duplicates_props [of df4, folded df5_def]
  note e = drop_missing_essential_props [of df5, folded c]
  have cols: "columns c = columns df4" and dts: "dtypes c = dtypes df4"
    using d e by simp_all
  have sub: "set (rows c) \<subseteq> set (rows df4)"
    using d(3) e(3) by auto
  show "rectangular c"
    using t(2) cols dts sub by (rule rectangular_subrows)
  show "distinct (columns c)" using cols t(3) by simp
  show "columns c = map strip (columns df)" using cols t(1) by simp
  then show "\<forall>x \<in> set (columns c). strip x = x"
    by (auto simp: strip_idem)
  show "typed_frame c"
    using t(5) cols dts sub by (rule typed_frame_subrows)
  show "columns c \<noteq> [] \<longrightarrow> distinct (rows c)"
    using d(4) cols e(3) by simp
  show "\<forall>r \<in> set (rows c). notna_in c (essential c) r"
    using e(1,3) by (simp add: notna_in_def essential_def)
  show "object_cells P c" if "\<And>x. P (normalize_cell lib x)"
    using t(6) [of P, OF that] cols dts sub by (rule object_cells_subrows)
qed

lemma basic_clean_fixpoint:
  assumes "pandas_ok lib"
    and "\<forall>x \<in> set (columns c). strip x = x"
    and "typed_frame c" and "columns c \<noteq> [] \<longrightarrow> distinct (rows c)"
    and "\<forall>r \<in> set (rows c). notna_in c (essential c) r"
    and "rectangular c" and "distinct (columns c)"
    and "object_cells (\<lambda>x. normalize_cell lib x = x) c"
  shows "basic_clean lib c = c"
proof -
  have 1: "strip_columns c = c"
    using assms(2) by (rule strip_columns_id)
  have 2: "coerce_dates lib c = c"
    unfolding coerce_dates_def
  proof (rule fold_assign_id)
    fix x i assume "x \<in> set (filter is_date_column (columns c))" "index_of x (columns c) = Some i"
    then have "i < length (columns c)" "is_date_column (columns c ! i)"
      by (auto dest: index_of_Some)
    from typed_frameD(1) [OF assms(3) this]
    show "to_datetime lib (column_at c i) = column_at c i \<and> dtypes c ! i = Datetime"
      using pandas_okD(3) [OF assms(1)] by simp
  qed
  have 3: "coerce_numerics lib c = c"
    unfolding coerce_numerics_def
  proof (rule fold_assign_id)
    fix x i
    assume "x \<in> set (filter (\<lambda>c'. c' \<in> set (columns c)) numeric_names)"
      "index_of x (columns c) = Some i"
    then have "i < length (columns c)" "columns c ! i \<in> set numeric_names"
      by (auto dest: index_of_Some)
    from typed_frameD(2) [OF assms(3) this]
    show "to_numeric lib (column_at c i) = column_at c i \<and> dtypes c ! i = Numeric"
      using pandas_okD(6) [OF assms(1)] by simp
  qed
  have 4: "normalize_strings lib c = c"
    unfolding normalize_strings_def
  proof (rule fold_assign_id)
    fix x i
    assume x: "x \<in> set (object_columns c)" and i: "index_of x (columns c) = Some i"
    from i have i': "i < length (columns c)" "columns c ! i = x"
      by (auto dest: index_of_Some)
    have l: "length (dtypes c) = length (columns c)"
      using assms(6) by (simp add: rectangular_def)
    from x i' have o: "dtypes c ! i = Object"
      using object_columns_mem [OF assms(7) l i'(1)] by simp
    have "list_all (\<lambda>x. normalize_cell lib x = x) (column_at c i)"
      using assms(8) i'(1) o by (rule object_cellsD)
    then have "map (normalize_cell lib) (column_at c i) = column_at c i"
      by (simp add: list_all_iff map_idI)
    with o show "map (normalize_cell lib) (column_at c i) = column_at c i \<and> dtypes c ! i = Object"
      by simp
  qed
  have 5: "drop_duplicates c = c"
    using assms(4) by (auto intro: drop_duplicates_props(5))
  have 6: "drop_missing_essential c = c"
    using assms(5) by (simp add: drop_missing_essential_def dropna_subset_def)
  show ?thesis
    by (simp add: basic_clean_def clean_until_dedup_def 1 2 3 4 5 6)
qed

section \<open>The reference library meets the assumptions\<close>

lemma days_from_civil_bounds:
  assumes "1678 \<le> y" "y \<le> 2261" "1 \<le> m" "m \<le> 12" "1 \<le> d" "d \<le> 31"
  shows "- 106751 < days_from_civil y m d \<and> days_from_civil y m d < 106751"
proof -
  define y' where "y' = (if m \<le> 2 then y - 1 else y)"
  define era where "era = y' div 400"
  define yoe where "yoe = y' - era * 400"
  define mp where "mp = (if m > 2 then m - 3 else m + 9)"
  define doy where "doy = (153 * mp + 2) div 5 + d - 1"
  define doe where "doe = yoe * 365 + yoe div 4 - yoe div 100 + doy"
  have r: "days_from_civil y m d = era * 146097 + doe - 719468"
    by (simp add: days_from_civil_def Let_def y'_def era_def yoe_def mp_def doy_def doe_def)
  have y': "1677 \<le> y'" "y' \<le> 2261" "m \<le> 2 \<or> 1678 \<le> y'"
    using assms by (auto simp: y'_def)
  have mp: "0 \<le> mp" "mp \<le> 11" "m \<le> 2 \<longrightarrow> 10 \<le> mp"
    using assms by (auto simp: mp_def)
  have doy: "0 \<le> doy" "doy \<le> 367" "m \<le> 2 \<longrightarrow> 306 \<le> doy"
    using mp assms unfolding doy_def by linarith+
  have era: "4 \<le> era" "era \<le> 5"
    using y' unfolding era_def by linarith+
  have yoe: "0 \<le> yoe" "yoe \<le> 399" "y' = era * 400 + yoe"
    unfolding yoe_def era_def by linarith+
  define q where "q = yoe div 4 - yoe div 100"
  have q: "0 \<le> q" "q \<le> 99"
    using yoe(1,2) unfolding q_def by linarith+
  have v: "days_from_civil y m d = 365 * y' + 97 * era + q + doy - 719468"
    unfolding r doe_def q_def using yoe(3) by linarith
  show ?thesis
    unfolding v using y' era q doy by linarith
qed

lemma parse_iso_date_bounds:
  assumes "parse_iso_date s = Some t"
  shows "ts_in_bounds t"
proof -
  from assms obtain y m d where
    t: "t = days_from_civil (int y) (int m) (int d) * ns_per_day"
    and b: "1678 \<le> y" "y \<le> 2261" "1 \<le> m" "m \<le> 12" "1 \<le> d"
      "int d \<le> days_in_month (int y) (int m)"
    by (auto simp: parse_iso_date_def split: if_splits option.splits)
  have "days_in_month (int y) (int m) \<le> 31"
    by (simp add: days_in_month_def)
  with b have
    "- 106751 < days_from_civil (int y) (int m) (int d) \<and> days_from_civil (int y) (int m) (int d) < 106751"
    by (intro days_from_civil_bounds) simp_all
  then show ?thesis
    unfolding t ts_in_bounds_def ns_per_day_def by simp
qed

lemma ref_datetime_cell_ok: "datetime_cell (ref_datetime_cell c)"
  by (cases c) (auto simp: ref_datetime_cell_def parse_iso_date_bounds split: option.splits)

lemma ref_datetime_cell_fix: "datetime_cell c \<Longrightarrow> ref_datetime_cell c = c"
  by (cases c) (auto simp: ref_datetime_cell_def)

lemma ref_numeric_cell_ok: "numeric_cell (ref_numeric_cell c)"
  by (cases c) (auto simp: ref_numeric_cell_def split: option.splits)

lemma ref_numeric_cell_fix: "numeric_cell c \<Longrightarrow> ref_numeric_cell c = c"
  by (cases c) (auto simp: ref_numeric_cell_def)

lemma ref_astype_str_text: "text_cell (ref_astype_str c)"
  by (cases c) (simp_all add: ref_astype_str_def)

lemma ref_pandas_ok: "pandas_ok ref_pandas"
proof -
  have i: "ref_astype_str (ref_astype_str c) = ref_astype_str c" for c
    by (cases c) (simp_all add: ref_astype_str_def)
  have s: "ref_astype_str (Str s) = Str s" for s
    by (simp add: ref_astype_str_def)
  show ?thesis
    by (simp add: pandas_ok_def ref_pandas_def list_all_iff map_idI ref_astype_str_text i s
        ref_datetime_cell_ok ref_datetime_cell_fix ref_numeric_cell_ok ref_numeric_cell_fix)
qed

lemma ref_pandas_na_ok: "pandas_ok ref_pandas_na"
proof -
  let ?f = "\<lambda>c. case c of Null \<Rightarrow> Null | _ \<Rightarrow> ref_astype_str c"
  have t: "text_cell (?f c)" for c
    by (cases c) (simp_all add: ref_astype_str_def)
  have i: "?f (?f c) = ?f c" for c
    by (cases c) (simp_all add: ref_astype_str_def)
  have s: "ref_astype_str (Str s) = Str s" for s
    by (simp add: ref_astype_str_def)
  show ?thesis
    unfolding pandas_ok_def ref_pandas_na_def
    by (simp add: list_all_iff map_idI t i s
        ref_datetime_cell_ok ref_datetime_cell_fix ref_numeric_cell_ok ref_numeric_cell_fix)
qed

lemma demo_raw_wf: "wf_frame demo_raw"
  by code_simp

lemma demo_clean: "basic_clean ref_pandas demo_raw =
 \<lparr>columns =
    [''Order Date'', ''Ship Date'', ''Sales'', ''Profit'', ''Category'',
     ''Product Name'', ''Region''],
    dtypes = [Datetime, Datetime, Numeric, Numeric, Object, Object, Object],
    rows =
      [[Ts 1672876800000000000, Ts 1673308800000000000, Num 100, Num 20,
        Str ''Tech'', Str ''Phone'', Str ''West''],
       [Ts 1674172800000000000, Ts 1674604800000000000, Num 50, Num (- 10),
        Str ''Tech'', Str ''Laptop'', Str ''nan''],
       [Ts 1675382400000000000, Ts 1675468800000000000, Num 0, Num 5,
        Str ''Office'', Str ''Pen'', Str ''East'']]\<rparr>"
  by code_simp


section \<open>Properties of the loader\<close>

lemma lower_txt: "lower ''.txt'' = ''.txt''"
  by (simp add: lower_def lower_char_def)

lemma suffix_notes: "suffix_of [''data'', ''notes.txt''] = ''.txt''"
  by (simp add: suffix_of_def name_def)

lemma suffix_orders: "lower (suffix_of [''data'', ''orders.xlsx'']) = ''.xlsx''"
  by (simp add: suffix_of_def name_def lower_def lower_char_def)

text \<open>
  C4: the loader fails with \<^verbatim>\<open>FileNotFoundError\<close> for every path that does not exist, and
  with the unsupported-type \<^verbatim>\<open>ValueError\<close> for every existing path whose lower-cased suffix
  is none of \<^verbatim>\<open>.csv\<close>, \<^verbatim>\<open>.xlsx\<close>, \<^verbatim>\<open>.xls\<close>; for an existing path with the suffix \<^verbatim>\<open>.txt\<close>
  this failure comes before anything is read (the list of read events is empty).
\<close>

theorem load_data_errors:
  "(\<not> path_exists env p \<longrightarrow> load_data env p = ([], Inl (FileNotFoundError p))) \<and>
   (path_exists env p \<and> lower (suffix_of p) \<notin> {''.csv'', ''.xlsx'', ''.xls''} \<longrightarrow>
      load_data env p = ([], Inl (ValueError (suffix_of p)))) \<and>
   (path_exists env p \<and> suffix_of p = ''.txt'' \<longrightarrow>
      load_data env p = ([], Inl (ValueError ''.txt'')))"
  by (simp add: load_data_def lower_txt)

theorem load_data_errors_witness:
  "\<not> path_exists demo_env [''data'', ''missing.csv''] \<and>
   load_data demo_env [''data'', ''missing.csv''] =
     ([], Inl (FileNotFoundError [''data'', ''missing.csv''])) \<and>
   path_exists demo_env [''data'', ''notes.txt''] \<and>
   suffix_of [''data'', ''notes.txt''] = ''.txt'' \<and>
   lower (suffix_of [''data'', ''notes.txt'']) \<notin> {''.csv'', ''.xlsx'', ''.xls''} \<and>
   load_data demo_env [''data'', ''notes.txt''] = ([], Inl (ValueError ''.txt''))"
  using load_data_errors [of demo_env "[''data'', ''missing.csv'']"]
    load_data_errors [of demo_env "[''data'', ''notes.txt'']"]
  by (simp add: demo_env_def suffix_notes lower_txt)

text \<open>
  C9 (corrected): for an existing path with suffix \<^verbatim>\<open>.xlsx\<close> or \<^verbatim>\<open>.xls\<close> the first read is
  that of the sheet named \<^verbatim>\<open>Orders\<close>.  When it succeeds its table is returned.  When it
  raises, whatever the exception, the loader reads the default sheet next, outside the
  \<^verbatim>\<open>try\<close>: it returns the table of the default sheet when that read succeeds and raises
  the exception of that read when it fails.
\<close>

theorem load_data_excel_fallback:
  assumes "path_exists env p" and "lower (suffix_of p) \<in> {''.xlsx'', ''.xls''}"
  shows "(\<exists>rest. fst (load_data env p) = ReadExcel p (Some ''Orders'') # rest) \<and>
         (\<forall>df. read_excel env p (Some ''Orders'') = Inr df \<longrightarrow>
            load_data env p = ([ReadExcel p (Some ''Orders'')], Inr df)) \<and>
         (\<forall>e. read_excel env p (Some ''Orders'') = Inl e \<longrightarrow>
            load_data env p =
              ([ReadExcel p (Some ''Orders''), ReadExcel p None], read_excel env p None)) \<and>
         (\<forall>e df. read_excel env p (Some ''Orders'') = Inl e \<and> read_excel env p None = Inr df \<longrightarrow>
            snd (load_data env p) = Inr df) \<and>
         (\<forall>e e'. read_excel env p (Some ''Orders'') = Inl e \<and> read_excel env p None = Inl e' \<longrightarrow>
            snd (load_data env p) = Inl e')"
  using assms by (auto simp: load_data_def split: sum.splits)

theorem load_data_excel_fallback_witness:
  "path_exists demo_env [''data'', ''orders.xlsx''] \<and>
   lower (suffix_of [''data'', ''orders.xlsx'']) \<in> {''.xlsx'', ''.xls''} \<and>
   read_excel demo_env [''data'', ''orders.xlsx''] (Some ''Orders'') =
     Inl (ReaderError ''Worksheet named Orders not found'') \<and>
   load_data demo_env [''data'', ''orders.xlsx''] =
     ([ReadExcel [''data'', ''orders.xlsx''] (Some ''Orders''),
       ReadExcel [''data'', ''orders.xlsx''] None],
      Inr scenario_raw)"
proof -
  have e: "path_exists demo_env [''data'', ''orders.xlsx'']"
    by (simp add: demo_env_def)
  have s: "lower (suffix_of [''data'', ''orders.xlsx'']) \<in> {''.xlsx'', ''.xls''}"
    by (simp add: suffix_orders)
  show ?thesis
    using load_data_excel_fallback [OF e s] e s by (simp add: demo_env_def)
qed

text \<open>
  A workbook that cannot be read at all: the read of the sheet \<^verbatim>\<open>Orders\<close> fails, the read
  of the default sheet fails too, and the loader raises.
\<close>

theorem load_data_excel_fallback_counterexample:
  "path_exists broken_env [''data'', ''broken.xlsx''] \<and>
   lower (suffix_of [''data'', ''broken.xlsx'']) \<in> {''.xlsx'', ''.xls''} \<and>
   read_excel broken_env [''data'', ''broken.xlsx''] (Some ''Orders'') =
     Inl (ReaderError ''File is not a zip file'') \<and>
   load_data broken_env [''data'', ''broken.xlsx''] =
     ([ReadExcel [''data'', ''broken.xlsx''] (Some ''Orders''),
       ReadExcel [''data'', ''broken.xlsx''] None],
      Inl (ReaderError ''File is not a zip file''))"
proof -
  have s: "lower (suffix_of [''data'', ''broken.xlsx'']) = ''.xlsx''"
    by (simp add: suffix_of_def name_def lower_def lower_char_def)
  show ?thesis
    by (simp add: load_data_def s) (simp add: broken_env_def)
qed

section \<open>Properties of the cleaner\<close>

lemma notna_in_iff:
  "notna_in d (essential d) r \<longleftrightarrow>
     (\<forall>c \<in> set essential_names. c \<in> set (columns d) \<longrightarrow> cell_of d r c \<noteq> Null)"
proof -
  have "c \<in> set (columns d) \<Longrightarrow>
        (case index_of c (columns d) of Some i \<Rightarrow> r ! i \<noteq> Null | None \<Rightarrow> True) = (cell_of d r c \<noteq> Null)" for c
    using index_of_mem [of c "columns d"] by (auto simp: cell_of_def)
  then show ?thesis
    by (auto simp: notna_in_def essential_def list_all_iff)
qed

lemma essential_empty_iff: "essential d = [] \<longleftrightarrow> set essential_names \<inter> set (columns d) = {}"
  by (auto simp: essential_def filter_empty_conv)

text \<open>
  C5: the last step of the cleaner keeps exactly the rows that have a value in every
  column of Order Date, Sales, Profit that the table has, and leaves the columns as they
  are; when the table has none of the three columns, the step changes nothing.
\<close>

theorem essential_filter_exact:
  "columns (basic_clean lib df) = columns (clean_until_dedup lib df) \<and>
   rows (basic_clean lib df) =
     filter (\<lambda>r. \<forall>c \<in> set essential_names.
                  c \<in> set (columns (clean_until_dedup lib df)) \<longrightarrow>
                  cell_of (clean_until_dedup lib df) r c \<noteq> Null)
       (rows (clean_until_dedup lib df)) \<and>
   (set essential_names \<inter> set (columns (clean_until_dedup lib df)) = {} \<longrightarrow>
      basic_clean lib df = clean_until_dedup lib df)"
proof -
  let ?d = "clean_until_dedup lib df"
  have "rows (drop_missing_essential ?d) = filter (notna_in ?d (essential ?d)) (rows ?d)"
    by (rule drop_missing_essential_props)
  moreover have "notna_in ?d (essential ?d) = (\<lambda>r. \<forall>c \<in> set essential_names.
                  c \<in> set (columns ?d) \<longrightarrow> cell_of ?d r c \<noteq> Null)"
    by (rule ext) (rule notna_in_iff)
  moreover have "set essential_names \<inter> set (columns ?d) = {} \<longrightarrow> drop_missing_essential ?d = ?d"
    using essential_empty_iff [of ?d] by (simp add: drop_missing_essential_def)
  ultimately show ?thesis
    by (simp add: basic_clean_def drop_missing_essential_props)
qed

lemma demo_plain_dedup: "clean_until_dedup ref_pandas demo_plain =
     \<lparr>columns = [''Category'', ''Units''],
      dtypes = [Object, Numeric],
      rows = [[Str ''Tech'', Num 1], [Str ''nan'', Null], [Str ''Office'', Null]]\<rparr>"
  by code_simp

lemma demo_dedup: "clean_until_dedup ref_pandas demo_raw =
 \<lparr>columns =
    [''Order Date'', ''Ship Date'', ''Sales'', ''Profit'', ''Category'',
     ''Product Name'', ''Region''],
    dtypes = [Datetime, Datetime, Numeric, Numeric, Object, Object, Object],
    rows =
      [[Ts 1672876800000000000, Ts 1673308800000000000, Num 100, Num 20,
        Str ''Tech'', Str ''Phone'', Str ''West''],
       [Ts 1674172800000000000, Ts 1674604800000000000, Num 50, Num (- 10),
        Str ''Tech'', Str ''Laptop'', Str ''nan''],
       [Null, Ts 1675209600000000000, Num 70, Num 7, Str ''Office'',
        Str ''Paper'', Str ''East''],
       [Ts 1675382400000000000, Ts 1675468800000000000, Num 0, Num 5,
        Str ''Office'', Str ''Pen'', Str ''East''],
       [Ts 1675987200000000000, Ts 1676160000000000000, Null, Num 1,
        Str ''Office'', Str ''Ink'', Str ''East'']]\<rparr>"
  by code_simp

theorem essential_filter_exact_witness:
  "set essential_names \<inter> set (columns (clean_until_dedup ref_pandas demo_plain)) = {} \<and>
   basic_clean ref_pandas demo_plain = clean_until_dedup ref_pandas demo_plain \<and>
   length (rows (basic_clean ref_pandas demo_plain)) = 3 \<and>
   ''Sales'' \<in> set essential_names \<and>
   ''Sales'' \<in> set (columns (clean_until_dedup ref_pandas demo_raw)) \<and>
   length (rows (clean_until_dedup ref_pandas demo_raw)) = 5 \<and>
   rows (basic_clean ref_pandas demo_raw) =
      [[Ts 1672876800000000000, Ts 1673308800000000000, Num 100, Num 20,
        Str ''Tech'', Str ''Phone'', Str ''West''],
       [Ts 1674172800000000000, Ts 1674604800000000000, Num 50, Num (- 10),
        Str ''Tech'', Str ''Laptop'', Str ''nan''],
       [Ts 1675382400000000000, Ts 1675468800000000000, Num 0, Num 5,
        Str ''Office'', Str ''Pen'', Str ''East'']]"
proof -
  have e: "set essential_names \<inter> set (columns (clean_until_dedup ref_pandas demo_plain)) = {}"
    by (simp add: demo_plain_dedup essential_names_def)
  have 1: "basic_clean ref_pandas demo_plain = clean_until_dedup ref_pandas demo_plain"
    using essential_filter_exact [of ref_pandas demo_plain] e by blast
  have 2: "rows (basic_clean ref_pandas demo_raw) =
     filter (\<lambda>r. \<forall>c \<in> set essential_names.
                  c \<in> set (columns (clean_until_dedup ref_pandas demo_raw)) \<longrightarrow>
                  cell_of (clean_until_dedup ref_pandas demo_raw) r c \<noteq> Null)
       (rows (clean_until_dedup ref_pandas demo_raw))"
    using essential_filter_exact [of ref_pandas demo_raw] by blast
  show ?thesis
    using e 1 unfolding 2 by (simp add: demo_plain_dedup demo_dedup essential_names_def cell_of_def)
qed

text \<open>
  C7: cleaning a cleaned table changes nothing, so the number of rows after the second
  cleaning is the number of rows after the first.
\<close>

theorem basic_clean_idempotent:
  assumes "wf_frame df" and "pandas_ok lib"
  shows "basic_clean lib (basic_clean lib df) = basic_clean lib df \<and>
         length (rows (basic_clean lib (basic_clean lib df))) = length (rows (basic_clean lib df))"
proof -
  note i = basic_clean_invariant [OF assms]
  have n: "object_cells (\<lambda>x. normalize_cell lib x = x) (basic_clean lib df)"
    by (rule i(8)) (rule normalize_cell_idem [OF assms(2)])
  have "basic_clean lib (basic_clean lib df) = basic_clean lib df"
    using assms(2) i(3) i(4) i(5) i(6) i(1) i(2) n by (rule basic_clean_fixpoint)
  then show ?thesis by simp
qed

theorem basic_clean_idempotent_witness:
  "wf_frame demo_raw \<and> pandas_ok ref_pandas \<and>
   length (rows (basic_clean ref_pandas demo_raw)) = 3 \<and>
   length (rows (basic_clean ref_pandas (basic_clean ref_pandas demo_raw))) = 3"
  using basic_clean_idempotent [OF demo_raw_wf ref_pandas_ok] demo_raw_wf ref_pandas_ok
  by (simp add: demo_clean)

section \<open>Properties of the aggregator\<close>

lemma sort_values_desc_sorted:
  "sorted_wrt (\<lambda>a b. sales_sum b \<le> sales_sum a) (sort_values_desc gs)"
proof -
  have "sorted (map sales_sum (sort_key sales_sum (rev gs)))"
    by (rule sorted_sort_key)
  then show ?thesis
    by (simp add: sort_values_desc_def sorted_wrt_rev sorted_map)
qed

lemma sort_values_desc_mset: "mset (sort_values_desc gs) = mset gs"
  by (simp add: sort_values_desc_def)

lemma sorted_desc_consecutive:
  assumes "sorted_wrt (\<lambda>a b. sales_sum b \<le> sales_sum a) t" and "Suc k < length t"
  shows "sales_sum (t ! Suc k) \<le> sales_sum (t ! k)"
  using assms by (simp add: sorted_wrt_iff_nth_less)

lemma group_tables_cases:
  assumes "group_tables df nm = Some t"
  shows "(nm = ''by_category'' \<and> t = aggr df ''Category'') \<or>
         (nm = ''by_subcategory'' \<and> t = aggr df ''Sub-Category'') \<or>
         (nm = ''by_region'' \<and> t = aggr df ''Region'') \<or>
         (nm = ''by_state'' \<and> t = aggr df ''State'')"
  using assms by (auto simp: group_tables_def Let_def split: if_splits)

lemma assign_margin_guard:
  "(sales_sum (assign_margin g) = 0 \<longrightarrow> profit_margin (assign_margin g) = None) \<and>
   (sales_sum (assign_margin g) \<noteq> 0 \<longrightarrow>
      profit_margin (assign_margin g) =
        Some (profit_sum (assign_margin g) / sales_sum (assign_margin g)))"
  by (simp add: assign_margin_def)

lemma demo_derived: "derived_table ref_pandas demo_raw =
  \<lparr>columns =
    [''Order Date'', ''Ship Date'', ''Sales'', ''Profit'', ''Category'',
     ''Product Name'', ''Region'', ''OrderYear'', ''OrderMonth'',
     ''ShipDelayDays'', ''ProfitMargin''],
    dtypes =
      [Datetime, Datetime, Numeric, Numeric, Object, Object, Object,
       Numeric, Datetime, Numeric, Numeric],
    rows =
      [[Ts 1672876800000000000, Ts 1673308800000000000, Num 100, Num 20,
        Str ''Tech'', Str ''Phone'', Str ''West'', Num 2023,
        Ts 1672531200000000000, Num 5, Num (1 / 5)],
       [Ts 1674172800000000000, Ts 1674604800000000000, Num 50, Num (- 10),
        Str ''Tech'', Str ''Laptop'', Str ''nan'', Num 2023,
        Ts 1672531200000000000, Num 5, Num (- (1 / 5))],
       [Ts 1675382400000000000, Ts 1675468800000000000, Num 0, Num 5,
        Str ''Office'', Str ''Pen'', Str ''East'', Num 2023,
        Ts 1675209600000000000, Num 1, Null]]\<rparr>"
  by code_simp

lemma demo_by_region:
  "group_tables (derived_table ref_pandas demo_raw) ''by_region'' =
     Some [\<lparr>key = Str ''West'', sales_sum = 100, profit_sum = 20, profit_margin = Some (1 / 5)\<rparr>,
           \<lparr>key = Str ''nan'', sales_sum = 50, profit_sum = - 10, profit_margin = Some (- (1 / 5))\<rparr>,
           \<lparr>key = Str ''East'', sales_sum = 0, profit_sum = 5, profit_margin = None\<rparr>]"
  by code_simp

text \<open>
  C2: every table of the group-table dictionary (by category, sub-category, region,
  state) is in descending order of the summed Sales: of two consecutive rows, the earlier
  has Sales greater than or equal to the later.
\<close>

theorem group_tables_sorted:
  assumes "group_tables df nm = Some t"
  shows "sorted_wrt (\<lambda>a b. sales_sum b \<le> sales_sum a) t \<and>
         (\<forall>k. Suc k < length t \<longrightarrow> sales_sum (t ! Suc k) \<le> sales_sum (t ! k))"
proof -
  from group_tables_cases [OF assms] obtain c where "t = aggr df c" by blast
  then have s: "sorted_wrt (\<lambda>a b. sales_sum b \<le> sales_sum a) t"
    by (simp add: aggr_def sort_values_desc_sorted)
  then show ?thesis
    using sorted_desc_consecutive by blast
qed

theorem group_tables_sorted_witness:
  "group_tables (derived_table ref_pandas demo_raw) ''by_region'' =
     Some [\<lparr>key = Str ''West'', sales_sum = 100, profit_sum = 20, profit_margin = Some (1 / 5)\<rparr>,
           \<lparr>key = Str ''nan'', sales_sum = 50, profit_sum = - 10, profit_margin = Some (- (1 / 5))\<rparr>,
           \<lparr>key = Str ''East'', sales_sum = 0, profit_sum = 5, profit_margin = None\<rparr>] \<and>
   sorted_wrt (\<lambda>a b. sales_sum b \<le> sales_sum a)
     [\<lparr>key = Str ''West'', sales_sum = 100, profit_sum = 20, profit_margin = Some (1 / 5)\<rparr>,
      \<lparr>key = Str ''nan'', sales_sum = 50, profit_sum = - 10, profit_margin = Some (- (1 / 5))\<rparr>,
      \<lparr>key = Str ''East'', sales_sum = 0, profit_sum = 5, profit_margin = None\<rparr>]"
  using group_tables_sorted [OF demo_by_region] demo_by_region by blast

lemma mset_insert_by: "mset (insert_by le x xs) = add_mset x (mset xs)"
  by (induction xs) auto

lemma mset_sort_by: "mset (sort_by le xs) = mset xs"
  unfolding sort_by_def by (induction xs) (auto simp: mset_insert_by)

lemma group_keys_props:
  shows "set (group_keys ks) = {k \<in> set ks. k \<noteq> Null}" and "distinct (group_keys ks)"
proof -
  let ?u = "keep_first (filter (\<lambda>k. k \<noteq> Null) ks)"
  have m: "mset (group_keys ks) = mset ?u"
    by (simp add: group_keys_def mset_sort_by)
  from m have "set (group_keys ks) = set ?u"
    by (rule mset_eq_setD)
  then show "set (group_keys ks) = {k \<in> set ks. k \<noteq> Null}"
    by (auto simp: keep_first_props)
  have "distinct ?u" by (rule keep_first_props)
  with m show "distinct (group_keys ks)"
    using mset_eq_imp_distinct_iff by blast
qed

lemma set_getitem:
  assumes "c \<in> set (columns df)"
  shows "set (getitem df c) = (\<lambda>r. cell_of df r c) ` set (rows df)"
proof -
  from index_of_mem [OF assms] obtain i where "index_of c (columns df) = Some i" ..
  then show ?thesis
    by (simp add: getitem_def cell_of_def column_at_def)
qed

lemma col_sum_cells:
  "col_sum (map f rs) = sum_list (map (\<lambda>r. case f r of Num a \<Rightarrow> a | _ \<Rightarrow> 0) rs)"
  by (simp add: col_sum_def num_val_def comp_def)

text \<open>
  The aggregation that \<^verbatim>\<open>groupby(c)[["Sales", "Profit"]].sum()\<close>, \<^verbatim>\<open>assign\<close> and
  \<^verbatim>\<open>sort_values\<close> compute: one row for every value of the column that is not missing, with
  the sums of Sales and Profit over the rows of that value and the margin recomputed from
  the sums, in descending order of summed Sales.
\<close>

lemma sorted_aggregation:
  assumes "c \<in> set (columns df)"
  defines "full \<equiv> sort_values_desc (map assign_margin (groupby_sum df c))"
  shows "sorted_wrt (\<lambda>a b. sales_sum b \<le> sales_sum a) full"
    and "distinct (map key full)"
    and "set (map key full) = {k. k \<noteq> Null \<and> (\<exists>r \<in> set (rows df). cell_of df r c = k)}"
    and "\<forall>g \<in> set full.
           sales_sum g =
             sum_list (map (\<lambda>r. case cell_of df r ''Sales'' of Num a \<Rightarrow> a | _ \<Rightarrow> 0)
               (filter (\<lambda>r. cell_of df r c = key g) (rows df))) \<and>
           profit_sum g =
             sum_list (map (\<lambda>r. case cell_of df r ''Profit'' of Num a \<Rightarrow> a | _ \<Rightarrow> 0)
               (filter (\<lambda>r. cell_of df r c = key g) (rows df))) \<and>
           profit_margin g =
             (if sales_sum g = 0 then None else Some (profit_sum g / sales_sum g))"
proof -
  let ?gs = "map assign_margin (groupby_sum df c)"
  have k: "map key ?gs = group_keys (getitem df c)"
    by (simp add: groupby_sum_def assign_margin_def comp_def)
  have m: "mset full = mset ?gs"
    unfolding full_def by (rule sort_values_desc_mset)
  then have mk: "mset (map key full) = mset (group_keys (getitem df c))"
    using k by (metis mset_map)
  show "sorted_wrt (\<lambda>a b. sales_sum b \<le> sales_sum a) full"
    unfolding full_def by (rule sort_values_desc_sorted)
  show "distinct (map key full)"
    using mk group_keys_props(2) [of "getitem df c"] mset_eq_imp_distinct_iff by blast
  have "set (map key full) = set (group_keys (getitem df c))"
    using mk by (rule mset_eq_setD)
  then show "set (map key full) = {k. k \<noteq> Null \<and> (\<exists>r \<in> set (rows df). cell_of df r c = k)}"
    unfolding group_keys_props(1) set_getitem [OF assms(1)] by auto
  show "\<forall>g \<in> set full.
           sales_sum g =
             sum_list (map (\<lambda>r. case cell_of df r ''Sales'' of Num a \<Rightarrow> a | _ \<Rightarrow> 0)
               (filter (\<lambda>r. cell_of df r c = key g) (rows df))) \<and>
           profit_sum g =
             sum_list (map (\<lambda>r. case cell_of df r ''Profit'' of Num a \<Rightarrow> a | _ \<Rightarrow> 0)
               (filter (\<lambda>r. cell_of df r c = key g) (rows df))) \<and>
           profit_margin g =
             (if sales_sum g = 0 then None else Some (profit_sum g / sales_sum g))"
  proof
    fix g assume "g \<in> set full"
    then have "g \<in> set ?gs"
      using m mset_eq_setD by blast
    then obtain k where g: "g = assign_margin
        \<lparr>key = k,
         sales_sum = col_sum (map (\<lambda>r. cell_of df r ''Sales'') (filter (\<lambda>r. cell_of df r c = k) (rows df))),
         profit_sum = col_sum (map (\<lambda>r. cell_of df r ''Profit'') (filter (\<lambda>r. cell_of df r c = k) (rows df))),
         profit_margin = None\<rparr>"
      by (auto simp: groupby_sum_def)
    show "sales_sum g =
             sum_list (map (\<lambda>r. case cell_of df r ''Sales'' of Num a \<Rightarrow> a | _ \<Rightarrow> 0)
               (filter (\<lambda>r. cell_of df r c = key g) (rows df))) \<and>
           profit_sum g =
             sum_list (map (\<lambda>r. case cell_of df r ''Profit'' of Num a \<Rightarrow> a | _ \<Rightarrow> 0)
               (filter (\<lambda>r. cell_of df r c = key g) (rows df))) \<and>
           profit_margin g =
             (if sales_sum g = 0 then None else Some (profit_sum g / sales_sum g))"
      unfolding g by (simp add: assign_margin_def col_sum_cells)
  qed
qed

text \<open>
  C3: the top products table has at most 10 rows.  It is the first 10 rows of a table
  that has one row for every product name of the input (missing names left out) with
  the sum of Sales and the sum of Profit over the orders of that product and the margin
  recomputed from the two sums, and that is sorted by summed Sales in descending order:
  the sort comes first, the truncation after it.
\<close>

theorem top_products_head:
  assumes "top_products df = Some t"
  shows "length t \<le> 10 \<and>
         (\<exists>full. t = take 10 full \<and>
            sorted_wrt (\<lambda>a b. sales_sum b \<le> sales_sum a) full \<and>
            distinct (map key full) \<and>
            set (map key full) =
              {k. k \<noteq> Null \<and> (\<exists>r \<in> set (rows df). cell_of df r ''Product Name'' = k)} \<and>
            (\<forall>g \<in> set full.
               sales_sum g =
                 sum_list (map (\<lambda>r. case cell_of df r ''Sales'' of Num a \<Rightarrow> a | _ \<Rightarrow> 0)
                   (filter (\<lambda>r. cell_of df r ''Product Name'' = key g) (rows df))) \<and>
               profit_sum g =
                 sum_list (map (\<lambda>r. case cell_of df r ''Profit'' of Num a \<Rightarrow> a | _ \<Rightarrow> 0)
                   (filter (\<lambda>r. cell_of df r ''Product Name'' = key g) (rows df))) \<and>
               profit_margin g =
                 (if sales_sum g = 0 then None else Some (profit_sum g / sales_sum g))))"
proof -
  let ?full = "sort_values_desc (map assign_margin (groupby_sum df ''Product Name''))"
  from assms have c: "''Product Name'' \<in> set (columns df)" and t: "t = take 10 ?full"
    by (simp_all add: top_products_def split: if_splits)
  note a = sorted_aggregation [OF c]
  have "length t \<le> 10" using t by simp
  moreover have "\<exists>full. t = take 10 full \<and>
            sorted_wrt (\<lambda>a b. sales_sum b \<le> sales_sum a) full \<and>
            distinct (map key full) \<and>
            set (map key full) =
              {k. k \<noteq> Null \<and> (\<exists>r \<in> set (rows df). cell_of df r ''Product Name'' = k)} \<and>
            (\<forall>g \<in> set full.
               sales_sum g =
                 sum_list (map (\<lambda>r. case cell_of df r ''Sales'' of Num a \<Rightarrow> a | _ \<Rightarrow> 0)
                   (filter (\<lambda>r. cell_of df r ''Product Name'' = key g) (rows df))) \<and>
               profit_sum g =
                 sum_list (map (\<lambda>r. case cell_of df r ''Profit'' of Num a \<Rightarrow> a | _ \<Rightarrow> 0)
                   (filter (\<lambda>r. cell_of df r ''Product Name'' = key g) (rows df))) \<and>
               profit_margin g =
                 (if sales_sum g = 0 then None else Some (profit_sum g / sales_sum g)))"
    using t a by (intro exI [of _ ?full] conjI)
  ultimately show ?thesis by (rule conjI)
qed

lemma demo_products_top: "top_products demo_products = Some demo_top10"
  by code_simp

theorem top_products_head_witness:
  "top_products demo_products = Some demo_top10 \<and>
   length demo_top10 = 10 \<and>
   (\<exists>full.
      demo_top10 = take 10 full \<and>
      length full = 12 \<and>
      sorted_wrt (\<lambda>a b. sales_sum b \<le> sales_sum a) full \<and>
      distinct (map key full) \<and>
      set (map key full) =
        {k. k \<noteq> Null \<and> (\<exists>r \<in> set (rows demo_products). cell_of demo_products r ''Product Name'' = k)})"
proof -
  from top_products_head [OF demo_products_top] obtain full where
    t: "demo_top10 = take 10 full"
    and s: "sorted_wrt (\<lambda>a b. sales_sum b \<le> sales_sum a) full"
    and d: "distinct (map key full)"
    and k: "set (map key full) =
        {k. k \<noteq> Null \<and> (\<exists>r \<in> set (rows demo_products). cell_of demo_products r ''Product Name'' = k)}"
    by blast
  have c: "''Product Name'' \<in> set (columns demo_products)"
    by (simp add: demo_products_def)
  have g: "group_keys (getitem demo_products ''Product Name'') =
        [Str ''P01'', Str ''P02'', Str ''P03'', Str ''P04'', Str ''P05'', Str ''P06'',
         Str ''P07'', Str ''P08'', Str ''P09'', Str ''P10'', Str ''P11'', Str ''P12'']"
    by code_simp
  have "{k. k \<noteq> Null \<and> (\<exists>r \<in> set (rows demo_products). cell_of demo_products r ''Product Name'' = k)} =
      set (group_keys (getitem demo_products ''Product Name''))"
    unfolding group_keys_props(1) set_getitem [OF c] by auto
  then have "card {k. k \<noteq> Null \<and> (\<exists>r \<in> set (rows demo_products). cell_of demo_products r ''Product Name'' = k)} =
      length (group_keys (getitem demo_products ''Product Name''))"
    using group_keys_props(2) [of "getitem demo_products ''Product Name''"]
    by (simp only: distinct_card)
  then have "card {k. k \<noteq> Null \<and> (\<exists>r \<in> set (rows demo_products). cell_of demo_products r ''Product Name'' = k)} = 12"
    unfolding g by simp
  with k d have l: "length full = 12"
    using distinct_card [of "map key full"] by simp
  have n: "length demo_top10 = 10"
    by (simp add: demo_top10_def)
  have "\<exists>full. demo_top10 = take 10 full \<and> length full = 12 \<and>
      sorted_wrt (\<lambda>a b. sales_sum b \<le> sales_sum a) full \<and>
      distinct (map key full) \<and>
      set (map key full) =
        {k. k \<noteq> Null \<and> (\<exists>r \<in> set (rows demo_products). cell_of demo_products r ''Product Name'' = k)}"
    by (rule exI [of _ full]) (intro conjI t l s d k)
  with demo_products_top n show ?thesis
    by (intro conjI)
qed

section \<open>Column assignment by label\<close>

lemma length_getitem:
  "c \<in> set (columns df) \<Longrightarrow> length (getitem df c) = length (rows df)"
  using index_of_mem [of c "columns df"] by (auto simp: getitem_def column_at_def)

lemma nth_getitem:
  "c \<in> set (columns df) \<Longrightarrow> k < length (rows df) \<Longrightarrow>
   getitem df c ! k = cell_of df (rows df ! k) c"
  using index_of_mem [of c "columns df"] by (auto simp: getitem_def column_at_def cell_of_def)

lemma setitem_shape:
  assumes "rectangular df" and "length vs = length (rows df)"
  shows "rectangular (setitem df c d vs)"
    and "length (rows (setitem df c d vs)) = length (rows df)"
    and "set (columns (setitem df c d vs)) = insert c (set (columns df))"
proof -
  show "rectangular (setitem df c d vs)"
  proof (cases "index_of c (columns df)")
    case None
    then show ?thesis
      using assms by (auto simp: setitem_def rectangular_def list_all_iff dest!: set_zip_leftD)
  next
    case (Some i)
    then show ?thesis
      using assms by (simp add: setitem_def rectangular_set_column)
  qed
  show "length (rows (setitem df c d vs)) = length (rows df)"
    using assms by (simp add: setitem_def set_column_def split: option.splits)
  show "set (columns (setitem df c d vs)) = insert c (set (columns df))"
    using index_of_Some [of c "columns df"]
    by (cases "index_of c (columns df)") (auto simp: setitem_def)
qed

lemma setitem_cell:
  assumes "rectangular df" and "length vs = length (rows df)" and "k < length (rows df)"
  shows "cell_of (setitem df c d vs) (rows (setitem df c d vs) ! k) c' =
           (if c' = c then vs ! k else cell_of df (rows df ! k) c')"
proof -
  have len: "length (rows df ! k) = length (columns df)"
    using assms(1,3) by (simp add: rectangular_row)
  show ?thesis
  proof (cases "index_of c (columns df)")
    case None
    have r: "rows (setitem df c d vs) ! k = rows df ! k @ [vs ! k]"
      using None assms by (simp add: setitem_def)
    have cs: "columns (setitem df c d vs) = columns df @ [c]"
      using None by (simp add: setitem_def)
    show ?thesis
    proof (cases "index_of c' (columns df)")
      case n: None
      have "(rows df ! k @ [vs ! k]) ! length (columns df) = vs ! k"
        using len nth_append_length [of "rows df ! k" "vs ! k"] by simp
      with n None show ?thesis
        by (simp add: cell_of_def r cs index_of_append)
    next
      case (Some j)
      then have "j < length (columns df)" "c' \<noteq> c"
        using None by (auto dest: index_of_Some)
      with Some len show ?thesis
        by (simp add: cell_of_def r cs index_of_append nth_append)
    qed
  next
    case (Some i)
    then have i: "i < length (columns df)" "columns df ! i = c"
      by (auto dest: index_of_Some)
    have r: "rows (setitem df c d vs) ! k = (rows df ! k)[i := vs ! k]"
      using Some assms by (simp add: setitem_def nth_rows_set_column)
    have cs: "columns (setitem df c d vs) = columns df"
      using Some by (simp add: setitem_def)
    show ?thesis
    proof (cases "index_of c' (columns df)")
      case None
      then have "c' \<noteq> c" using Some by auto
      with None show ?thesis by (simp add: cell_of_def cs)
    next
      case j: (Some j)
      then have jl: "j < length (columns df)" and jc: "columns df ! j = c'"
        by (auto dest: index_of_Some)
      show ?thesis
      proof (cases "c' = c")
        case True
        with j Some have "j = i" by simp
        then have "cell_of (setitem df c d vs) (rows (setitem df c d vs) ! k) c' = vs ! k"
          using j i(1) len by (simp add: cell_of_def cs r)
        with True show ?thesis by simp
      next
        case False
        with jc i(2) have "j \<noteq> i" by auto
        then have "cell_of (setitem df c d vs) (rows (setitem df c d vs) ! k) c' =
            cell_of df (rows df ! k) c'"
          using j by (simp add: cell_of_def cs r)
        with False show ?thesis by simp
      qed
    qed
  qed
qed

lemma setitem_object:
  assumes "rectangular df" and "length vs = length (rows df)" and "d \<noteq> Object"
    and "j < length (columns (setitem df c d vs))" and "dtypes (setitem df c d vs) ! j = Object"
  shows "j < length (columns df) \<and> dtypes df ! j = Object \<and>
         column_at (setitem df c d vs) j = column_at df j"
proof -
  have l: "length (dtypes df) = length (columns df)"
    using assms(1) by (simp add: rectangular_def)
  show ?thesis
  proof (cases "index_of c (columns df)")
    case None
    have j: "j < length (columns df)"
    proof (rule ccontr)
      assume "\<not> j < length (columns df)"
      with assms(4) None have "j = length (columns df)" by (simp add: setitem_def)
      with assms(5) None l assms(3) show False by (simp add: setitem_def nth_append)
    qed
    have "column_at (setitem df c d vs) j = column_at df j"
    proof (rule nth_equalityI)
      show "length (column_at (setitem df c d vs) j) = length (column_at df j)"
        using None assms(2) by (simp add: column_at_def setitem_def)
    next
      fix k assume "k < length (column_at (setitem df c d vs) j)"
      then have k: "k < length (rows df)"
        using None assms(2) by (simp add: column_at_def setitem_def)
      then have "length (rows df ! k) = length (columns df)"
        using assms(1) by (simp add: rectangular_row)
      with k j None assms(2) show "column_at (setitem df c d vs) j ! k = column_at df j ! k"
        by (simp add: column_at_def setitem_def nth_append)
    qed
    with j None assms(5) l show ?thesis
      by (simp add: setitem_def nth_append)
  next
    case (Some i)
    then have i: "i < length (columns df)"
      by (auto dest: index_of_Some)
    have j: "j < length (columns df)"
      using assms(4) Some by (simp add: setitem_def)
    have "j \<noteq> i"
      using assms(3,5) Some i l by (auto simp: setitem_def)
    with Some i j assms show ?thesis
      by (simp add: setitem_def column_at_set_column)
  qed
qed


lemma setitem_target:
  assumes "rectangular df"
  obtains i where "i < length (columns (setitem df c d vs))"
    and "columns (setitem df c d vs) ! i = c" and "dtypes (setitem df c d vs) ! i = d"
    and "\<And>j. j < length (columns (setitem df c d vs)) \<Longrightarrow> j \<noteq> i \<Longrightarrow>
           j < length (columns df) \<and> columns (setitem df c d vs) ! j = columns df ! j \<and>
           dtypes (setitem df c d vs) ! j = dtypes df ! j \<and>
           (length vs = length (rows df) \<longrightarrow> column_at (setitem df c d vs) j = column_at df j)"
proof -
  have l: "length (dtypes df) = length (columns df)"
    using assms by (simp add: rectangular_def)
  show thesis
  proof (cases "index_of c (columns df)")
    case None
    let ?i = "length (columns df)"
    have cs: "columns (setitem df c d vs) = columns df @ [c]"
      and ds: "dtypes (setitem df c d vs) = dtypes df @ [d]"
      and rs: "rows (setitem df c d vs) = map (\<lambda>(r, v). r @ [v]) (zip (rows df) vs)"
      using None by (simp_all add: setitem_def)
    show thesis
    proof (rule that [of ?i])
      show "?i < length (columns (setitem df c d vs))" by (simp add: cs)
      show "columns (setitem df c d vs) ! ?i = c" by (simp add: cs)
      show "dtypes (setitem df c d vs) ! ?i = d" using l by (simp add: ds nth_append)
    next
      fix j assume "j < length (columns (setitem df c d vs))" "j \<noteq> ?i"
      then have j: "j < length (columns df)" by (simp add: cs)
      have "column_at (setitem df c d vs) j = column_at df j" if len: "length vs = length (rows df)"
      proof (rule nth_equalityI)
        show "length (column_at (setitem df c d vs) j) = length (column_at df j)"
          using len by (simp add: column_at_def rs)
      next
        fix k assume "k < length (column_at (setitem df c d vs) j)"
        then have k: "k < length (rows df)"
          using len by (simp add: column_at_def rs)
        then have "length (rows df ! k) = length (columns df)"
          using assms by (simp add: rectangular_row)
        with k j len show "column_at (setitem df c d vs) j ! k = column_at df j ! k"
          by (simp add: column_at_def rs nth_append)
      qed
      with j l show "j < length (columns df) \<and> columns (setitem df c d vs) ! j = columns df ! j \<and>
           dtypes (setitem df c d vs) ! j = dtypes df ! j \<and>
           (length vs = length (rows df) \<longrightarrow> column_at (setitem df c d vs) j = column_at df j)"
        by (simp add: cs ds nth_append)
    qed
  next
    case (Some i)
    note s = index_of_Some [OF Some]
    from s have il: "i < length (columns df)" ..
    from s have ic: "columns df ! i = c" ..
    have e: "setitem df c d vs = set_column df i d vs"
      using Some by (simp add: setitem_def)
    show thesis
    proof (rule that [of i])
      show "i < length (columns (setitem df c d vs))" using il by (simp add: e)
      show "columns (setitem df c d vs) ! i = c" using ic by (simp add: e)
      show "dtypes (setitem df c d vs) ! i = d" using il l by (simp add: e)
    next
      fix j assume "j < length (columns (setitem df c d vs))" "j \<noteq> i"
      then show "j < length (columns df) \<and> columns (setitem df c d vs) ! j = columns df ! j \<and>
           dtypes (setitem df c d vs) ! j = dtypes df ! j \<and>
           (length vs = length (rows df) \<longrightarrow> column_at (setitem df c d vs) j = column_at df j)"
        using il assms by (simp add: e column_at_set_column)
    qed
  qed
qed

lemma setitem_typed:
  assumes "typed_frame df" and "rectangular df" and "length vs = length (rows df)"
    and "d \<noteq> Object" and "\<not> is_date_column c" and "c \<notin> set numeric_names"
  shows "typed_frame (setitem df c d vs)"
proof -
  let ?df = "setitem df c d vs"
  from setitem_target [OF assms(2), of c d vs] obtain i where
    i: "columns ?df ! i = c" "dtypes ?df ! i = d"
    and o: "\<And>j. j < length (columns ?df) \<Longrightarrow> j \<noteq> i \<Longrightarrow>
           j < length (columns df) \<and> columns ?df ! j = columns df ! j \<and>
           dtypes ?df ! j = dtypes df ! j \<and>
           (length vs = length (rows df) \<longrightarrow> column_at ?df j = column_at df j)"
    by blast
  show ?thesis
  proof (rule typed_frameI)
    fix j assume j: "j < length (columns ?df)"
    show "is_date_column (columns ?df ! j) \<Longrightarrow>
            dtypes ?df ! j = Datetime \<and> list_all datetime_cell (column_at ?df j)"
    proof -
      assume a: "is_date_column (columns ?df ! j)"
      with i(1) assms(5) have "j \<noteq> i" by auto
      from o [OF j this] assms(3) a typed_frameD(1) [OF assms(1), of j]
      show ?thesis by simp
    qed
    show "columns ?df ! j \<in> set numeric_names \<Longrightarrow>
            dtypes ?df ! j = Numeric \<and> list_all numeric_cell (column_at ?df j)"
    proof -
      assume a: "columns ?df ! j \<in> set numeric_names"
      with i(1) assms(6) have "j \<noteq> i" by auto
      from o [OF j this] assms(3) a typed_frameD(2) [OF assms(1), of j]
      show ?thesis by simp
    qed
    show "dtypes ?df ! j = Object \<Longrightarrow> list_all stripped_cell (column_at ?df j)"
    proof -
      assume a: "dtypes ?df ! j = Object"
      with i(2) assms(4) have "j \<noteq> i" by auto
      from o [OF j this] assms(3) a typed_frameD(3) [OF assms(1), of j]
      show ?thesis by simp
    qed
  qed
qed


lemma derived_labels:
  "\<not> is_date_column ''OrderYear''" "''OrderYear'' \<notin> set numeric_names"
  "\<not> is_date_column ''OrderMonth''" "''OrderMonth'' \<notin> set numeric_names"
  "\<not> is_date_column ''ShipDelayDays''" "''ShipDelayDays'' \<notin> set numeric_names"
  "\<not> is_date_column ''ProfitMargin''" "''ProfitMargin'' \<notin> set numeric_names"
  by code_simp+

lemma length_profit_margin_column:
  "length profit = length sales \<Longrightarrow> length (profit_margin_column sales profit) = length sales"
  by (simp add: profit_margin_column_def np_where_def)

lemma nth_profit_margin_column:
  assumes "length profit = length sales" and "k < length sales"
  shows "profit_margin_column sales profit ! k =
           (if ne_zero (sales ! k) then truediv (profit ! k) (sales ! k) else Null)"
  using assms by (simp add: profit_margin_column_def np_where_def)

lemma add_order_features_ok:
  assumes "rectangular df"
  shows "rectangular (add_order_features df)"
    and "length (rows (add_order_features df)) = length (rows df)"
    and "set (columns df) \<subseteq> set (columns (add_order_features df))"
    and "typed_frame df \<Longrightarrow> typed_frame (add_order_features df)"
proof -
  let ?v1 = "map year_cell (getitem df ''Order Date'')"
  let ?df1 = "setitem df ''OrderYear'' Numeric ?v1"
  let ?v2 = "map month_start_cell (getitem ?df1 ''Order Date'')"
  let ?df2 = "setitem ?df1 ''OrderMonth'' Datetime ?v2"
  have a: "rectangular ?df2 \<and> length (rows ?df2) = length (rows df) \<and>
           set (columns df) \<subseteq> set (columns ?df2) \<and> (typed_frame df \<longrightarrow> typed_frame ?df2)"
    if od: "''Order Date'' \<in> set (columns df)"
  proof -
    have l1: "length ?v1 = length (rows df)"
      using od by (simp add: length_getitem)
    note s1 = setitem_shape [OF assms l1, of "''OrderYear''" Numeric]
    have od1: "''Order Date'' \<in> set (columns ?df1)"
      using od s1(3) by simp
    have l2: "length ?v2 = length (rows ?df1)"
      using od1 by (simp add: length_getitem)
    note s2 = setitem_shape [OF s1(1) l2, of "''OrderMonth''" Datetime]
    have t: "typed_frame ?df2" if t0: "typed_frame df"
    proof -
      have "typed_frame ?df1"
        using t0 assms l1 by (rule setitem_typed) (simp_all add: derived_labels)
      then show ?thesis
        using s1(1) l2 by (rule setitem_typed) (simp_all add: derived_labels)
    qed
    show ?thesis
      using s1 s2 t by auto
  qed
  show "rectangular (add_order_features df)"
    using a assms by (simp add: add_order_features_def Let_def)
  show "length (rows (add_order_features df)) = length (rows df)"
    using a by (simp add: add_order_features_def Let_def)
  show "set (columns df) \<subseteq> set (columns (add_order_features df))"
    using a by (simp add: add_order_features_def Let_def)
  show "typed_frame df \<Longrightarrow> typed_frame (add_order_features df)"
    using a by (simp add: add_order_features_def Let_def)
qed

lemma add_ship_delay_ok:
  assumes "rectangular df"
  shows "rectangular (add_ship_delay df)"
    and "length (rows (add_ship_delay df)) = length (rows df)"
    and "set (columns df) \<subseteq> set (columns (add_ship_delay df))"
    and "typed_frame df \<Longrightarrow> typed_frame (add_ship_delay df)"
proof -
  let ?v = "map (\<lambda>(s, t). delay_days_cell s t)
             (zip (getitem df ''Ship Date'') (getitem df ''Order Date''))"
  let ?df1 = "setitem df ''ShipDelayDays'' Numeric ?v"
  have a: "rectangular ?df1 \<and> length (rows ?df1) = length (rows df) \<and>
           set (columns df) \<subseteq> set (columns ?df1) \<and> (typed_frame df \<longrightarrow> typed_frame ?df1)"
    if c: "''Order Date'' \<in> set (columns df)" "''Ship Date'' \<in> set (columns df)"
  proof -
    have l: "length ?v = length (rows df)"
      using c by (simp add: length_getitem)
    note s = setitem_shape [OF assms l, of "''ShipDelayDays''" Numeric]
    have "typed_frame ?df1" if t0: "typed_frame df"
      using t0 assms l by (rule setitem_typed) (simp_all add: derived_labels)
    with s show ?thesis by auto
  qed
  show "rectangular (add_ship_delay df)"
    using a assms by (simp add: add_ship_delay_def)
  show "length (rows (add_ship_delay df)) = length (rows df)"
    using a by (simp add: add_ship_delay_def)
  show "set (columns df) \<subseteq> set (columns (add_ship_delay df))"
    using a by (simp add: add_ship_delay_def)
  show "typed_frame df \<Longrightarrow> typed_frame (add_ship_delay df)"
    using a by (simp add: add_ship_delay_def)
qed

lemma add_profit_margin_ok:
  assumes "rectangular df"
  shows "rectangular (add_profit_margin df)"
    and "length (rows (add_profit_margin df)) = length (rows df)"
    and "set (columns df) \<subseteq> set (columns (add_profit_margin df))"
    and "typed_frame df \<Longrightarrow> typed_frame (add_profit_margin df)"
proof -
  let ?v = "profit_margin_column (getitem df ''Sales'') (getitem df ''Profit'')"
  let ?df1 = "setitem df ''ProfitMargin'' Numeric ?v"
  have a: "rectangular ?df1 \<and> length (rows ?df1) = length (rows df) \<and>
           set (columns df) \<subseteq> set (columns ?df1) \<and> (typed_frame df \<longrightarrow> typed_frame ?df1)"
    if c: "''Sales'' \<in> set (columns df)" "''Profit'' \<in> set (columns df)"
  proof -
    have l: "length ?v = length (rows df)"
      using c by (simp add: length_getitem length_profit_margin_column)
    note s = setitem_shape [OF assms l, of "''ProfitMargin''" Numeric]
    have "typed_frame ?df1" if t0: "typed_frame df"
      using t0 assms l by (rule setitem_typed) (simp_all add: derived_labels)
    with s show ?thesis by auto
  qed
  show "rectangular (add_profit_margin df)"
    using a assms by (simp add: add_profit_margin_def)
  show "length (rows (add_profit_margin df)) = length (rows df)"
    using a by (simp add: add_profit_margin_def)
  show "set (columns df) \<subseteq> set (columns (add_profit_margin df))"
    using a by (simp add: add_profit_margin_def)
  show "typed_frame df \<Longrightarrow> typed_frame (add_profit_margin df)"
    using a by (simp add: add_profit_margin_def)
qed

lemma feature_engineering_ok:
  assumes "rectangular df"
  shows "rectangular (feature_engineering df)"
    and "length (rows (feature_engineering df)) = length (rows df)"
    and "set (columns df) \<subseteq> set (columns (feature_engineering df))"
    and "typed_frame df \<Longrightarrow> typed_frame (feature_engineering df)"
proof -
  note a = add_order_features_ok [OF assms]
  note b = add_ship_delay_ok [OF a(1)]
  note c = add_profit_margin_ok [OF b(1)]
  show "rectangular (feature_engineering df)"
    using c(1) by (simp add: feature_engineering_def)
  show "length (rows (feature_engineering df)) = length (rows df)"
    using a(2) b(2) c(2) by (simp add: feature_engineering_def)
  show "set (columns df) \<subseteq> set (columns (feature_engineering df))"
    using a(3) b(3) c(3) unfolding feature_engineering_def by blast
  show "typed_frame df \<Longrightarrow> typed_frame (feature_engineering df)"
    using a(4) b(4) c(4) by (simp add: feature_engineering_def)
qed

lemma derived_table_typed:
  assumes "wf_frame df" and "pandas_ok lib"
  shows "typed_frame (derived_table lib df)" and "rectangular (derived_table lib df)"
  using basic_clean_invariant(1,4) [OF assms] feature_engineering_ok(1,4)
  by (simp_all add: derived_table_def)

section \<open>Properties of the feature deriver and of the margins\<close>

lemma sort_values_desc_set: "set (sort_values_desc gs) = set gs"
  by (simp add: sort_values_desc_def)

lemma aggr_row_guard:
  assumes "g \<in> set (sort_values_desc (map assign_margin gs))"
  shows "(sales_sum g = 0 \<longrightarrow> profit_margin g = None) \<and>
         (sales_sum g \<noteq> 0 \<longrightarrow> profit_margin g = Some (profit_sum g / sales_sum g))"
proof -
  from assms obtain g0 where "g = assign_margin g0"
    by (auto simp: sort_values_desc_set)
  then show ?thesis
    by (simp add: assign_margin_def)
qed

lemma add_profit_margin_cells:
  assumes "rectangular df" and "''Sales'' \<in> set (columns df)" and "''Profit'' \<in> set (columns df)"
    and "k < length (rows df)"
  defines "F \<equiv> add_profit_margin df"
  shows "cell_of F (rows F ! k) ''ProfitMargin'' =
           (if ne_zero (cell_of F (rows F ! k) ''Sales'')
            then truediv (cell_of F (rows F ! k) ''Profit'') (cell_of F (rows F ! k) ''Sales'')
            else Null)"
proof -
  let ?v = "profit_margin_column (getitem df ''Sales'') (getitem df ''Profit'')"
  have F: "F = setitem df ''ProfitMargin'' Numeric ?v"
    using assms(2,3) by (simp add: F_def add_profit_margin_def)
  have l: "length ?v = length (rows df)"
    using assms(2,3) by (simp add: length_getitem length_profit_margin_column)
  note c = setitem_cell [OF assms(1) l assms(4), of "''ProfitMargin''" Numeric, folded F]
  have s: "cell_of F (rows F ! k) ''Sales'' = getitem df ''Sales'' ! k"
    using c [of "''Sales''"] assms(2,4) by (simp add: nth_getitem)
  have p: "cell_of F (rows F ! k) ''Profit'' = getitem df ''Profit'' ! k"
    using c [of "''Profit''"] assms(3,4) by (simp add: nth_getitem)
  have m: "cell_of F (rows F ! k) ''ProfitMargin'' = ?v ! k"
    using c [of "''ProfitMargin''"] by simp
  have "?v ! k = (if ne_zero (getitem df ''Sales'' ! k)
       then truediv (getitem df ''Profit'' ! k) (getitem df ''Sales'' ! k) else Null)"
    using assms(2,3,4) by (intro nth_profit_margin_column) (simp_all add: length_getitem)
  then show ?thesis
    unfolding m s p .
qed

lemma margin_cases:
  assumes "m = (if ne_zero s then truediv p s else Null)"
  shows "(s = Num 0 \<longrightarrow> m = Null) \<and>
         (\<forall>a b. s = Num a \<and> a \<noteq> 0 \<and> p = Num b \<longrightarrow> m = Num (b / a)) \<and>
         (s = Null \<or> p = Null \<longrightarrow> m = Null)"
  using assms by (auto simp: ne_zero_def truediv_def split: cell.splits)

text \<open>
  C1: in the table of the feature deriver, a row with Sales 0 has a missing ProfitMargin,
  a row with Sales \<open>a \<noteq> 0\<close> and Profit \<open>b\<close> has ProfitMargin \<open>b / a\<close>, and a row where
  Sales or Profit is missing has a missing ProfitMargin.  In every group table and in the
  top products table, a group with summed Sales 0 has no margin, and any other group has
  the margin summed Profit / summed Sales.
\<close>

theorem profit_margin_guarded:
  assumes "rectangular df" and "{''Sales'', ''Profit''} \<subseteq> set (columns df)"
  shows "(\<forall>r \<in> set (rows (feature_engineering df)).
            (cell_of (feature_engineering df) r ''Sales'' = Num 0 \<longrightarrow>
               cell_of (feature_engineering df) r ''ProfitMargin'' = Null) \<and>
            (\<forall>a b. cell_of (feature_engineering df) r ''Sales'' = Num a \<and> a \<noteq> 0 \<and>
                    cell_of (feature_engineering df) r ''Profit'' = Num b \<longrightarrow>
               cell_of (feature_engineering df) r ''ProfitMargin'' = Num (b / a)) \<and>
            (cell_of (feature_engineering df) r ''Sales'' = Null \<or>
             cell_of (feature_engineering df) r ''Profit'' = Null \<longrightarrow>
               cell_of (feature_engineering df) r ''ProfitMargin'' = Null)) \<and>
         (\<forall>nm t g. group_tables dt nm = Some t \<and> g \<in> set t \<longrightarrow>
            (sales_sum g = 0 \<longrightarrow> profit_margin g = None) \<and>
            (sales_sum g \<noteq> 0 \<longrightarrow> profit_margin g = Some (profit_sum g / sales_sum g))) \<and>
         (\<forall>t g. top_products dt = Some t \<and> g \<in> set t \<longrightarrow>
            (sales_sum g = 0 \<longrightarrow> profit_margin g = None) \<and>
            (sales_sum g \<noteq> 0 \<longrightarrow> profit_margin g = Some (profit_sum g / sales_sum g)))"
proof (intro conjI ballI allI impI)
  let ?D = "add_ship_delay (add_order_features df)"
  let ?F = "feature_engineering df"
  note a = add_order_features_ok [OF assms(1)]
  note b = add_ship_delay_ok [OF a(1)]
  have F: "?F = add_profit_margin ?D"
    by (simp add: feature_engineering_def)
  have c: "''Sales'' \<in> set (columns ?D)" "''Profit'' \<in> set (columns ?D)"
    using assms(2) a(3) b(3) by auto
  have len: "length (rows ?F) = length (rows ?D)"
    unfolding F using add_profit_margin_ok(2) [OF b(1)] .
  have cells: "(cell_of ?F r ''Sales'' = Num 0 \<longrightarrow> cell_of ?F r ''ProfitMargin'' = Null) \<and>
         (\<forall>a b. cell_of ?F r ''Sales'' = Num a \<and> a \<noteq> 0 \<and> cell_of ?F r ''Profit'' = Num b \<longrightarrow>
            cell_of ?F r ''ProfitMargin'' = Num (b / a)) \<and>
         (cell_of ?F r ''Sales'' = Null \<or> cell_of ?F r ''Profit'' = Null \<longrightarrow>
            cell_of ?F r ''ProfitMargin'' = Null)"
    if r: "r \<in> set (rows ?F)" for r
  proof -
    from r obtain k where k: "k < length (rows ?F)" "r = rows ?F ! k"
      by (auto simp: in_set_conv_nth)
    then have k': "k < length (rows ?D)" using len by simp
    from add_profit_margin_cells [OF b(1) c k', folded F]
    show ?thesis
      unfolding k(2) by (rule margin_cases)
  qed
  fix r assume r: "r \<in> set (rows ?F)"
  show "cell_of ?F r ''Sales'' = Num 0 \<Longrightarrow> cell_of ?F r ''ProfitMargin'' = Null"
    using cells [OF r] by blast
  show "cell_of ?F r ''ProfitMargin'' = Num (b' / a')"
    if "cell_of ?F r ''Sales'' = Num a' \<and> a' \<noteq> 0 \<and> cell_of ?F r ''Profit'' = Num b'" for a' b'
    using cells [OF r] that by blast
  show "cell_of ?F r ''Sales'' = Null \<or> cell_of ?F r ''Profit'' = Null \<Longrightarrow>
        cell_of ?F r ''ProfitMargin'' = Null"
    using cells [OF r] by blast
next
  fix nm t g assume h: "group_tables dt nm = Some t \<and> g \<in> set t"
  then obtain c where "t = aggr dt c"
    using group_tables_cases [of dt nm t] by blast
  with h have g: "g \<in> set (sort_values_desc (map assign_margin (groupby_sum dt c)))"
    by (simp add: aggr_def)
  show "sales_sum g = 0 \<Longrightarrow> profit_margin g = None"
    using aggr_row_guard [OF g] by blast
  show "sales_sum g \<noteq> 0 \<Longrightarrow> profit_margin g = Some (profit_sum g / sales_sum g)"
    using aggr_row_guard [OF g] by blast
next
  fix t g assume h: "top_products dt = Some t \<and> g \<in> set t"
  then have "t = take 10 (sort_values_desc (map assign_margin (groupby_sum dt ''Product Name'')))"
    by (simp add: top_products_def split: if_splits)
  with h have g: "g \<in> set (sort_values_desc (map assign_margin (groupby_sum dt ''Product Name'')))"
    using set_take_subset by fastforce
  show "sales_sum g = 0 \<Longrightarrow> profit_margin g = None"
    using aggr_row_guard [OF g] by blast
  show "sales_sum g \<noteq> 0 \<Longrightarrow> profit_margin g = Some (profit_sum g / sales_sum g)"
    using aggr_row_guard [OF g] by blast
qed

lemma demo_clean_rect: "rectangular (basic_clean ref_pandas demo_raw)"
  using basic_clean_invariant(1) [OF demo_raw_wf ref_pandas_ok] .

lemma demo_features:
  "feature_engineering (basic_clean ref_pandas demo_raw) = derived_table ref_pandas demo_raw"
  by (simp add: derived_table_def)

lemma demo_by_category:
  "group_tables (derived_table ref_pandas demo_raw) ''by_category'' =
     Some [\<lparr>key = Str ''Tech'', sales_sum = 150, profit_sum = 10, profit_margin = Some (1 / 15)\<rparr>,
           \<lparr>key = Str ''Office'', sales_sum = 0, profit_sum = 5, profit_margin = None\<rparr>]"
  by code_simp

theorem profit_margin_guarded_witness:
  "rectangular (basic_clean ref_pandas demo_raw) \<and>
   {''Sales'', ''Profit''} \<subseteq> set (columns (basic_clean ref_pandas demo_raw)) \<and>
   rows (derived_table ref_pandas demo_raw) ! 2 \<in> set (rows (derived_table ref_pandas demo_raw)) \<and>
   cell_of (derived_table ref_pandas demo_raw) (rows (derived_table ref_pandas demo_raw) ! 2) ''Sales'' = Num 0 \<and>
   cell_of (derived_table ref_pandas demo_raw) (rows (derived_table ref_pandas demo_raw) ! 2) ''ProfitMargin'' = Null \<and>
   cell_of (derived_table ref_pandas demo_raw) (rows (derived_table ref_pandas demo_raw) ! 0) ''ProfitMargin'' = Num (20 / 100) \<and>
   (\<exists>t g. group_tables (derived_table ref_pandas demo_raw) ''by_category'' = Some t \<and> g \<in> set t \<and>
      sales_sum g = 0 \<and> profit_margin g = None)"
proof -
  let ?D = "derived_table ref_pandas demo_raw"
  have c: "{''Sales'', ''Profit''} \<subseteq> set (columns (basic_clean ref_pandas demo_raw))"
    by (simp add: demo_clean)
  note t = profit_margin_guarded [OF demo_clean_rect c, unfolded demo_features,
      of "derived_table ref_pandas demo_raw"]
  have r2: "rows ?D ! 2 \<in> set (rows ?D)" and s2: "cell_of ?D (rows ?D ! 2) ''Sales'' = Num 0"
    by (simp_all add: demo_derived cell_of_def)
  have r0: "rows ?D ! 0 \<in> set (rows ?D)"
    and s0: "cell_of ?D (rows ?D ! 0) ''Sales'' = Num 100 \<and> (100::rat) \<noteq> 0 \<and>
             cell_of ?D (rows ?D ! 0) ''Profit'' = Num 20"
    by (simp_all add: demo_derived cell_of_def)
  from t r2 s2 have m2: "cell_of ?D (rows ?D ! 2) ''ProfitMargin'' = Null"
    by blast
  from t r0 s0 have m0: "cell_of ?D (rows ?D ! 0) ''ProfitMargin'' = Num (20 / 100)"
    by blast
  let ?g = "\<lparr>key = Str ''Office'', sales_sum = 0, profit_sum = 5, profit_margin = None\<rparr>"
  have g: "group_tables ?D ''by_category'' = Some
     [\<lparr>key = Str ''Tech'', sales_sum = 150, profit_sum = 10, profit_margin = Some (1 / 15)\<rparr>, ?g] \<and>
     ?g \<in> set [\<lparr>key = Str ''Tech'', sales_sum = 150, profit_sum = 10, profit_margin = Some (1 / 15)\<rparr>, ?g]"
    by (simp add: demo_by_category)
  have "\<exists>t g. group_tables ?D ''by_category'' = Some t \<and> g \<in> set t \<and>
      sales_sum g = 0 \<and> profit_margin g = None"
    using g by (intro exI [of _ "[\<lparr>key = Str ''Tech'', sales_sum = 150, profit_sum = 10, profit_margin = Some (1 / 15)\<rparr>, ?g]"] exI [of _ ?g]) simp
  with demo_clean_rect c r2 s2 m2 m0 show ?thesis
    by blast
qed


section \<open>Dates as text\<close>

declare decimal.simps [simp del]

lemma day_number_bounds:
  assumes "ts_in_bounds t"
  shows "- 106752 \<le> t div ns_per_day \<and> t div ns_per_day \<le> 106751"
proof -
  have "- 9223372036854775808 < t" "t < 9223372036854775808"
    using assms by (simp_all add: ts_in_bounds_def)
  then show ?thesis
    unfolding ns_per_day_def by linarith
qed

lemma civil_from_days_bounds:
  assumes "- 106752 \<le> z0" "z0 \<le> 106751" and "civil_from_days z0 = (y, m, d)"
  shows "1000 \<le> y \<and> y \<le> 9999 \<and> m \<le> 99 \<and> d \<le> 99"
proof -
  define z where "z = z0 + 719468"
  define era where "era = z div 146097"
  define doe where "doe = z - era * 146097"
  define n where "n = doe - doe div 1460 + doe div 36524 - doe div 146096"
  define yoe where "yoe = n div 365"
  define doy where "doy = doe - (365 * yoe + yoe div 4 - yoe div 100)"
  define mp where "mp = (5 * doy + 2) div 153"
  have r: "civil_from_days z0 =
      (if (if mp < 10 then mp + 3 else mp - 9) \<le> 2 then yoe + era * 400 + 1 else yoe + era * 400,
       if mp < 10 then mp + 3 else mp - 9,
       doy - (153 * mp + 2) div 5 + 1)"
    by (simp only: civil_from_days_def Let_def z_def era_def doe_def n_def yoe_def doy_def mp_def)
  have z: "612716 \<le> z" "z \<le> 826219" using assms(1,2) by (simp_all add: z_def)
  have era: "4 \<le> era" "era \<le> 5" using z unfolding era_def by linarith+
  have doe: "0 \<le> doe" "doe \<le> 146096" unfolding doe_def era_def by linarith+
  have n: "0 \<le> n" "n \<le> 146100" "doe - n \<le> 101" "- 4 \<le> doe - n"
    using doe unfolding n_def by linarith+
  have yoe: "0 \<le> yoe" "yoe \<le> 400" "n - 364 \<le> 365 * yoe" "365 * yoe \<le> n"
    using n(1,2) unfolding yoe_def by linarith+
  have doy: "- 104 \<le> doy" "doy \<le> 469"
    using yoe n(3,4) unfolding doy_def by linarith+
  have mp: "- 4 \<le> mp" "mp \<le> 15" "153 * mp \<le> 5 * doy + 2" "5 * doy + 2 \<le> 153 * mp + 152"
    using doy unfolding mp_def by linarith+
  have d: "doy - (153 * mp + 2) div 5 + 1 \<le> 99"
    using mp(3,4) by linarith
  from assms(3) have "y = (if (if mp < 10 then mp + 3 else mp - 9) \<le> 2 then yoe + era * 400 + 1 else yoe + era * 400)"
    and "m = (if mp < 10 then mp + 3 else mp - 9)" and "d = doy - (153 * mp + 2) div 5 + 1"
    unfolding r by auto
  then show ?thesis
    using era yoe mp(1,2) d by (auto split: if_splits)
qed

lemma is_digit_digit: "is_digit (digit n)"
proof -
  have "n mod 10 < 10" by simp
  then have "(48 + n mod 10) mod 256 = 48 + n mod 10" by simp
  then show ?thesis
    by (simp add: is_digit_def digit_def Let_def)
qed

lemma decimal_digits: "list_all is_digit (decimal n)"
  by (induction n rule: decimal.induct) (subst decimal.simps, simp add: is_digit_digit)

lemma length_decimal_small: "n < 10 \<Longrightarrow> length (decimal n) = 1"
  by (subst decimal.simps) simp

lemma length_decimal_two: "n < 100 \<Longrightarrow> length (decimal n) \<le> 2"
proof -
  assume "n < 100"
  then have "n div 10 < 10" by simp
  then have "length (decimal (n div 10)) = 1" by (rule length_decimal_small)
  then show ?thesis by (subst decimal.simps) simp
qed

lemma length_decimal_four: "1000 \<le> n \<Longrightarrow> n < 10000 \<Longrightarrow> length (decimal n) = 4"
proof -
  assume a: "1000 \<le> n" "n < 10000"
  have b: "n div 10 div 10 div 10 < 10" "\<not> n div 10 div 10 < 10" "\<not> n div 10 < 10" "\<not> n < 10"
    using a by linarith+
  have 1: "length (decimal (n div 10 div 10 div 10)) = 1"
    using b(1) by (rule length_decimal_small)
  have 2: "length (decimal (n div 10 div 10)) = 2"
    using b(2) 1 by (subst decimal.simps) simp
  have 3: "length (decimal (n div 10)) = 3"
    using b(3) 2 by (subst decimal.simps) simp
  show ?thesis
    using b(4) 3 by (subst decimal.simps) simp
qed

lemma zero_pad_digits: "list_all is_digit s \<Longrightarrow> list_all is_digit (zero_pad w s)"
proof -
  have "is_digit CHR ''0''" by (simp add: is_digit_def)
  then show "list_all is_digit s \<Longrightarrow> list_all is_digit (zero_pad w s)"
    by (auto simp: zero_pad_def list_all_iff)
qed

lemma length_zero_pad: "length s \<le> w \<Longrightarrow> length (zero_pad w s) = w"
  by (simp add: zero_pad_def)

lemma iso_date_stringI:
  assumes "length a = 4" "length b = 2" "length c = 2"
    and "list_all is_digit a" "list_all is_digit b" "list_all is_digit c"
  shows "iso_date_string (a @ ''-'' @ b @ ''-'' @ c)"
  using assms by (simp add: iso_date_string_def nth_append)

lemma strftime_ymd_shape:
  assumes "ts_in_bounds t"
  shows "iso_date_string (strftime_ymd t)"
proof -
  obtain y m d where c: "civil_from_days (t div ns_per_day) = (y, m, d)"
    by (cases "civil_from_days (t div ns_per_day)") auto
  from day_number_bounds [OF assms] have b: "1000 \<le> y \<and> y \<le> 9999 \<and> m \<le> 99 \<and> d \<le> 99"
    using c by (intro civil_from_days_bounds) simp_all
  have s: "strftime_ymd t = zero_pad 4 (decimal (nat y)) @ ''-'' @ zero_pad 2 (decimal (nat m)) @ ''-'' @
          zero_pad 2 (decimal (nat d))"
    by (simp add: strftime_ymd_def date_of_def c)
  have "1000 \<le> nat y" "nat y < 10000" "nat m < 100" "nat d < 100"
    using b by linarith+
  then have ly: "length (decimal (nat y)) = 4" and lm: "length (decimal (nat m)) \<le> 2"
    and ld: "length (decimal (nat d)) \<le> 2"
    by (simp_all add: length_decimal_four length_decimal_two)
  show ?thesis
    unfolding s
    by (rule iso_date_stringI)
      (simp_all add: length_zero_pad ly lm ld zero_pad_digits decimal_digits)
qed


lemma order_date_is_date: "is_date_column ''Order Date''"
  by code_simp

lemma set_ts_values: "set (ts_values cs) = {t. Ts t \<in> set cs}"
  by (auto simp: ts_values_def map_filter_def split: cell.splits)

lemma typed_date_column:
  assumes "typed_frame df" and "c \<in> set (columns df)" and "is_date_column c"
  shows "list_all datetime_cell (getitem df c)"
proof -
  from index_of_mem [OF assms(2)] obtain i where i: "index_of c (columns df) = Some i" ..
  note s = index_of_Some [OF i]
  from s have il: "i < length (columns df)" ..
  from s have ic: "columns df ! i = c" ..
  have "is_date_column (columns df ! i)"
    unfolding ic by (rule assms(3))
  then have "list_all datetime_cell (column_at df i)"
    using typed_frameD(1) [OF assms(1) il] by blast
  then show ?thesis
    unfolding getitem_def i by simp
qed

lemma typed_order_date:
  assumes "typed_frame df" and "''Order Date'' \<in> set (columns df)"
  shows "list_all datetime_cell (getitem df ''Order Date'')"
  using assms(1,2) order_date_is_date by (rule typed_date_column)

lemma datetime_cells_ts:
  assumes "list_all datetime_cell cs"
  shows "\<forall>t \<in> set (ts_values cs). ts_in_bounds t"
    and "list_ex (\<lambda>c. c \<noteq> Null) cs \<longleftrightarrow> ts_values cs \<noteq> []"
proof -
  show "\<forall>t \<in> set (ts_values cs). ts_in_bounds t"
    using assms by (auto simp: set_ts_values list_all_iff)
  have "list_ex (\<lambda>c. c \<noteq> Null) cs \<longleftrightarrow> (\<exists>t. Ts t \<in> set cs)"
  proof
    assume "list_ex (\<lambda>c. c \<noteq> Null) cs"
    then obtain c where c: "c \<in> set cs" "c \<noteq> Null" by (auto simp: list_ex_iff)
    with assms have "datetime_cell c" by (simp add: list_all_iff)
    with c(2) obtain t where "c = Ts t" by (cases c) auto
    with c(1) show "\<exists>t. Ts t \<in> set cs" by blast
  next
    assume "\<exists>t. Ts t \<in> set cs"
    then show "list_ex (\<lambda>c. c \<noteq> Null) cs" by (auto simp: list_ex_iff)
  qed
  also have "\<dots> \<longleftrightarrow> set (ts_values cs) \<noteq> {}"
    by (auto simp: set_ts_values)
  finally show "list_ex (\<lambda>c. c \<noteq> Null) cs \<longleftrightarrow> ts_values cs \<noteq> []"
    by simp
qed

lemma compute_kpis_margin:
  "compute_kpis df ''overall_profit_margin'' =
     (if {''Sales'', ''Profit''} \<subseteq> set (columns df) \<and> col_sum (getitem df ''Sales'') \<noteq> 0
      then Some (KFloat (col_sum (getitem df ''Profit'') / col_sum (getitem df ''Sales'')))
      else None)"
  by (simp add: compute_kpis_def Let_def split: list.splits)

lemma compute_kpis_date_range:
  "compute_kpis df ''date_range'' =
     (if ''Order Date'' \<in> set (columns df) \<and> list_ex (\<lambda>c. c \<noteq> Null) (getitem df ''Order Date'')
      then (case ts_values (getitem df ''Order Date'') of
              [] \<Rightarrow> None
            | t # ts \<Rightarrow> Some (KDateRange (strftime_ymd (fold min ts t)) (strftime_ymd (fold max ts t))))
      else None)"
  by (simp add: compute_kpis_def Let_def split: list.splits)

text \<open>
  C6: the KPI dictionary has the key \<^verbatim>\<open>overall_profit_margin\<close> exactly when the table has
  both Sales and Profit and the sum of Sales is not 0, and its value is then the sum of
  Profit divided by the sum of Sales.  It has the key \<^verbatim>\<open>date_range\<close> exactly when the table
  has Order Date with a value that is not missing; its two entries are the least and the
  greatest order date, formatted in the form \<^verbatim>\<open>YYYY-MM-DD\<close>.
\<close>

theorem compute_kpis_keys:
  assumes "typed_frame df"
  shows "(''overall_profit_margin'' \<in> dom (compute_kpis df) \<longleftrightarrow>
            {''Sales'', ''Profit''} \<subseteq> set (columns df) \<and> col_sum (getitem df ''Sales'') \<noteq> 0) \<and>
         ({''Sales'', ''Profit''} \<subseteq> set (columns df) \<and> col_sum (getitem df ''Sales'') \<noteq> 0 \<longrightarrow>
            compute_kpis df ''overall_profit_margin'' =
              Some (KFloat (col_sum (getitem df ''Profit'') / col_sum (getitem df ''Sales'')))) \<and>
         (''date_range'' \<in> dom (compute_kpis df) \<longleftrightarrow>
            ''Order Date'' \<in> set (columns df) \<and>
            list_ex (\<lambda>c. c \<noteq> Null) (getitem df ''Order Date'')) \<and>
         (''date_range'' \<in> dom (compute_kpis df) \<longrightarrow>
            (\<exists>lo hi. compute_kpis df ''date_range'' = Some (KDateRange (strftime_ymd lo) (strftime_ymd hi)) \<and>
               lo = Min (set (ts_values (getitem df ''Order Date''))) \<and>
               hi = Max (set (ts_values (getitem df ''Order Date''))) \<and>
               iso_date_string (strftime_ymd lo) \<and> iso_date_string (strftime_ymd hi)))"
proof -
  let ?od = "getitem df ''Order Date''"
  have m: "''overall_profit_margin'' \<in> dom (compute_kpis df) \<longleftrightarrow>
            {''Sales'', ''Profit''} \<subseteq> set (columns df) \<and> col_sum (getitem df ''Sales'') \<noteq> 0"
    by (simp add: dom_def compute_kpis_margin)
  have v: "{''Sales'', ''Profit''} \<subseteq> set (columns df) \<and> col_sum (getitem df ''Sales'') \<noteq> 0 \<longrightarrow>
            compute_kpis df ''overall_profit_margin'' =
              Some (KFloat (col_sum (getitem df ''Profit'') / col_sum (getitem df ''Sales'')))"
    by (simp add: compute_kpis_margin)
  have d: "''date_range'' \<in> dom (compute_kpis df) \<longleftrightarrow>
            ''Order Date'' \<in> set (columns df) \<and> list_ex (\<lambda>c. c \<noteq> Null) ?od"
  proof (cases "''Order Date'' \<in> set (columns df)")
    case True
    note t = datetime_cells_ts [OF typed_order_date [OF assms True]]
    show ?thesis
      using True t(2)
      by (auto simp: dom_def compute_kpis_date_range split: list.splits)
  next
    case False
    then show ?thesis
      by (simp add: dom_def compute_kpis_date_range)
  qed
  have r: "''date_range'' \<in> dom (compute_kpis df) \<longrightarrow>
            (\<exists>lo hi. compute_kpis df ''date_range'' = Some (KDateRange (strftime_ymd lo) (strftime_ymd hi)) \<and>
               lo = Min (set (ts_values ?od)) \<and> hi = Max (set (ts_values ?od)) \<and>
               iso_date_string (strftime_ymd lo) \<and> iso_date_string (strftime_ymd hi))"
  proof
    assume "''date_range'' \<in> dom (compute_kpis df)"
    with d have c: "''Order Date'' \<in> set (columns df)" and e: "list_ex (\<lambda>c. c \<noteq> Null) ?od"
      by simp_all
    note t = datetime_cells_ts [OF typed_order_date [OF assms c]]
    from e t(2) obtain x xs where x: "ts_values ?od = x # xs"
      by (cases "ts_values ?od") auto
    have lo: "fold min xs x = Min (set (ts_values ?od))"
      unfolding x by (rule Min.set_eq_fold [symmetric])
    have hi: "fold max xs x = Max (set (ts_values ?od))"
      unfolding x by (rule Max.set_eq_fold [symmetric])
    have ne: "set (ts_values ?od) \<noteq> {}" "finite (set (ts_values ?od))"
      using x by simp_all
    have "Min (set (ts_values ?od)) \<in> set (ts_values ?od)"
      using ne by (intro Min_in)
    then have b1: "ts_in_bounds (Min (set (ts_values ?od)))"
      using t(1) by blast
    have "Max (set (ts_values ?od)) \<in> set (ts_values ?od)"
      using ne by (intro Max_in)
    then have b2: "ts_in_bounds (Max (set (ts_values ?od)))"
      using t(1) by blast
    have "compute_kpis df ''date_range'' =
        Some (KDateRange (strftime_ymd (Min (set (ts_values ?od)))) (strftime_ymd (Max (set (ts_values ?od)))))"
      using c e x lo hi by (simp add: compute_kpis_date_range)
    then show "\<exists>lo hi. compute_kpis df ''date_range'' = Some (KDateRange (strftime_ymd lo) (strftime_ymd hi)) \<and>
               lo = Min (set (ts_values ?od)) \<and> hi = Max (set (ts_values ?od)) \<and>
               iso_date_string (strftime_ymd lo) \<and> iso_date_string (strftime_ymd hi)"
      using b1 b2 by (simp add: strftime_ymd_shape)
  qed
  show ?thesis
    by (intro conjI) (rule m, rule v, rule d, rule r)
qed

lemma demo_derived_typed: "typed_frame (derived_table ref_pandas demo_raw)"
  using derived_table_typed(1) [OF demo_raw_wf ref_pandas_ok] .

lemma demo_kpis:
  "compute_kpis (derived_table ref_pandas demo_raw) ''overall_profit_margin'' = Some (KFloat (1 / 10))"
  "compute_kpis (derived_table ref_pandas demo_raw) ''date_range'' =
     Some (KDateRange ''2023-01-05'' ''2023-02-03'')"
  "compute_kpis demo_plain ''date_range'' = None"
  "compute_kpis demo_plain ''overall_profit_margin'' = None"
  by code_simp+

theorem compute_kpis_keys_witness:
  "typed_frame (derived_table ref_pandas demo_raw) \<and>
   ''overall_profit_margin'' \<in> dom (compute_kpis (derived_table ref_pandas demo_raw)) \<and>
   {''Sales'', ''Profit''} \<subseteq> set (columns (derived_table ref_pandas demo_raw)) \<and>
   col_sum (getitem (derived_table ref_pandas demo_raw) ''Sales'') \<noteq> 0 \<and>
   compute_kpis (derived_table ref_pandas demo_raw) ''overall_profit_margin'' = Some (KFloat (1 / 10)) \<and>
   ''date_range'' \<in> dom (compute_kpis (derived_table ref_pandas demo_raw)) \<and>
   compute_kpis (derived_table ref_pandas demo_raw) ''date_range'' =
     Some (KDateRange ''2023-01-05'' ''2023-02-03'') \<and>
   iso_date_string ''2023-01-05'' \<and> iso_date_string ''2023-02-03''"
proof -
  let ?D = "derived_table ref_pandas demo_raw"
  note t = compute_kpis_keys [OF demo_derived_typed]
  have m: "''overall_profit_margin'' \<in> dom (compute_kpis ?D)"
    and d: "''date_range'' \<in> dom (compute_kpis ?D)"
    by (simp_all add: dom_def demo_kpis)
  from t m have c: "{''Sales'', ''Profit''} \<subseteq> set (columns ?D) \<and> col_sum (getitem ?D ''Sales'') \<noteq> 0"
    by blast
  from t d obtain lo hi where
    r: "compute_kpis ?D ''date_range'' = Some (KDateRange (strftime_ymd lo) (strftime_ymd hi))"
    and i: "iso_date_string (strftime_ymd lo)" "iso_date_string (strftime_ymd hi)"
    by blast
  from r have "strftime_ymd lo = ''2023-01-05''" "strftime_ymd hi = ''2023-02-03''"
    by (simp_all add: demo_kpis)
  with i have "iso_date_string ''2023-01-05''" "iso_date_string ''2023-02-03''"
    by simp_all
  with demo_derived_typed m d c demo_kpis(1,2) show ?thesis
    by blast
qed


section \<open>Missing values in object columns\<close>

lemma setitem_object_cells:
  assumes "object_cells P df" and "rectangular df" and "length vs = length (rows df)"
    and "d \<noteq> Object"
  shows "object_cells P (setitem df c d vs)"
proof (rule object_cellsI)
  fix j
  assume "j < length (columns (setitem df c d vs))" "dtypes (setitem df c d vs) ! j = Object"
  with setitem_object [OF assms(2,3,4)]
  have j: "j < length (columns df)" "dtypes df ! j = Object"
    and e: "column_at (setitem df c d vs) j = column_at df j"
    by blast+
  show "list_all P (column_at (setitem df c d vs) j)"
    unfolding e using assms(1) j by (rule object_cellsD)
qed

lemma feature_engineering_object_cells:
  assumes "rectangular df" and "object_cells P df"
  shows "object_cells P (feature_engineering df)"
proof -
  have 1: "object_cells P (add_order_features df)"
  proof (cases "''Order Date'' \<in> set (columns df)")
    case True
    let ?v1 = "map year_cell (getitem df ''Order Date'')"
    let ?df1 = "setitem df ''OrderYear'' Numeric ?v1"
    let ?v2 = "map month_start_cell (getitem ?df1 ''Order Date'')"
    have l1: "length ?v1 = length (rows df)"
      using True by (simp add: length_getitem)
    note s1 = setitem_shape [OF assms(1) l1, of "''OrderYear''" Numeric]
    have "''Order Date'' \<in> set (columns ?df1)"
      using True s1(3) by simp
    then have l2: "length ?v2 = length (rows ?df1)"
      by (simp add: length_getitem)
    have "object_cells P ?df1"
      using assms(2,1) l1 by (rule setitem_object_cells) simp
    then have "object_cells P (setitem ?df1 ''OrderMonth'' Datetime ?v2)"
      using s1(1) l2 by (rule setitem_object_cells) simp
    with True show ?thesis
      by (simp add: add_order_features_def Let_def)
  next
    case False
    with assms(2) show ?thesis by (simp add: add_order_features_def)
  qed
  note a = add_order_features_ok [OF assms(1)]
  let ?A = "add_order_features df"
  have 2: "object_cells P (add_ship_delay ?A)"
  proof (cases "{''Order Date'', ''Ship Date''} \<subseteq> set (columns ?A)")
    case True
    let ?v = "map (\<lambda>(s, t). delay_days_cell s t)
               (zip (getitem ?A ''Ship Date'') (getitem ?A ''Order Date''))"
    have l: "length ?v = length (rows ?A)"
      using True by (simp add: length_getitem)
    have "object_cells P (setitem ?A ''ShipDelayDays'' Numeric ?v)"
      using 1 a(1) l by (rule setitem_object_cells) simp
    with True show ?thesis
      by (simp add: add_ship_delay_def)
  next
    case False
    with 1 show ?thesis by (auto simp: add_ship_delay_def)
  qed
  note b = add_ship_delay_ok [OF a(1)]
  let ?B = "add_ship_delay ?A"
  have 3: "object_cells P (add_profit_margin ?B)"
  proof (cases "{''Sales'', ''Profit''} \<subseteq> set (columns ?B)")
    case True
    let ?v = "profit_margin_column (getitem ?B ''Sales'') (getitem ?B ''Profit'')"
    have l: "length ?v = length (rows ?B)"
      using True by (simp add: length_getitem length_profit_margin_column)
    have "object_cells P (setitem ?B ''ProfitMargin'' Numeric ?v)"
      using 2 b(1) l by (rule setitem_object_cells) simp
    with True show ?thesis
      by (simp add: add_profit_margin_def)
  next
    case False
    with 2 show ?thesis by (auto simp: add_profit_margin_def)
  qed
  then show ?thesis
    by (simp add: feature_engineering_def)
qed

lemma object_cells_data_dict:
  assumes "object_cells (\<lambda>c. c \<noteq> Null) d"
  shows "\<forall>row \<in> set (data_dict d). dtype_of row = Object \<longrightarrow> n_missing row = 0"
proof (intro ballI impI)
  fix row assume "row \<in> set (data_dict d)" and o: "dtype_of row = Object"
  then obtain j where j: "j < length (columns d)"
    and row: "row = \<lparr>column = columns d ! j, dtype_of = dtypes d ! j,
               n_missing = length (filter (\<lambda>c. c = Null) (column_at d j)),
               sample_value = (case filter (\<lambda>c. c \<noteq> Null) (column_at d j) of
                                 [] \<Rightarrow> None | v # vs \<Rightarrow> Some v)\<rparr>"
    by (auto simp: data_dict_def)
  from o row have "dtypes d ! j = Object" by simp
  with assms j have "list_all (\<lambda>c. c \<noteq> Null) (column_at d j)"
    by (rule object_cellsD)
  then have "filter (\<lambda>c. c = Null) (column_at d j) = []"
    by (simp add: filter_empty_conv list_all_iff)
  with row show "n_missing row = 0" by simp
qed

lemma normalize_cell_string:
  assumes "pandas_ok lib" and "\<forall>c. astype_str lib c \<noteq> Null"
  shows "\<exists>s. normalize_cell lib c = Str s"
proof -
  from assms(2) have "astype_str lib c \<noteq> Null" ..
  with pandas_okD(7) [OF assms(1), of c] obtain s where "astype_str lib c = Str s"
    by (cases "astype_str lib c") auto
  then show ?thesis
    by (simp add: normalize_cell_def str_strip_def)
qed

lemma strip_nan: "strip ''nan'' = ''nan''"
  by (simp add: strip_def is_space_def)

text \<open>
  C10 (corrected): with a pandas whose \<^verbatim>\<open>astype(str)\<close> returns a string for every value,
  and the string \<^verbatim>\<open>nan\<close> for a missing one (pandas 2), every cell of an object column of
  the cleaned table is a string, the string step turns a missing value of an object column
  into the string \<^verbatim>\<open>nan\<close>, and the data dictionary, of the cleaned table as of the
  derived table, counts no missing value in an object column.
\<close>

theorem object_columns_hold_nan:
  assumes "wf_frame df" and "pandas_ok lib"
    and "\<forall>c. astype_str lib c \<noteq> Null" and "astype_str lib Null = Str ''nan''"
  shows "(\<forall>j < length (columns (basic_clean lib df)).
            dtypes (basic_clean lib df) ! j = Object \<longrightarrow>
            (\<forall>r \<in> set (rows (basic_clean lib df)). \<exists>s. r ! j = Str s)) \<and>
         (\<forall>j k. j < length (columns (coerce_numerics lib (coerce_dates lib (strip_columns df)))) \<and>
                k < length (rows (coerce_numerics lib (coerce_dates lib (strip_columns df)))) \<and>
                dtypes (coerce_numerics lib (coerce_dates lib (strip_columns df))) ! j = Object \<and>
                column_at (coerce_numerics lib (coerce_dates lib (strip_columns df))) j ! k = Null \<longrightarrow>
                column_at (normalize_strings lib
                  (coerce_numerics lib (coerce_dates lib (strip_columns df)))) j ! k = Str ''nan'') \<and>
         (\<forall>row \<in> set (data_dict (basic_clean lib df)). dtype_of row = Object \<longrightarrow> n_missing row = 0) \<and>
         (\<forall>row \<in> set (data_dict (derived_table lib df)). dtype_of row = Object \<longrightarrow> n_missing row = 0)"
proof (intro conjI)
  note i = basic_clean_invariant [OF assms(1,2)]
  have str: "object_cells (\<lambda>c. \<exists>s. c = Str s) (basic_clean lib df)"
    by (rule i(8)) (rule normalize_cell_string [OF assms(2,3)])
  have nn: "object_cells (\<lambda>c. c \<noteq> Null) (basic_clean lib df)"
  proof (rule i(8))
    fix x
    from normalize_cell_string [OF assms(2,3), of x] show "normalize_cell lib x \<noteq> Null"
      by auto
  qed
  show "\<forall>j < length (columns (basic_clean lib df)).
            dtypes (basic_clean lib df) ! j = Object \<longrightarrow>
            (\<forall>r \<in> set (rows (basic_clean lib df)). \<exists>s. r ! j = Str s)"
  proof (intro allI impI ballI)
    fix j r assume j: "j < length (columns (basic_clean lib df))"
      and o: "dtypes (basic_clean lib df) ! j = Object" and r: "r \<in> set (rows (basic_clean lib df))"
    from object_cellsD [OF str j o] r show "\<exists>s. r ! j = Str s"
      by (simp add: list_all_column_at)
  qed
  show "\<forall>row \<in> set (data_dict (basic_clean lib df)). dtype_of row = Object \<longrightarrow> n_missing row = 0"
    using nn by (rule object_cells_data_dict)
  have "object_cells (\<lambda>c. c \<noteq> Null) (derived_table lib df)"
    unfolding derived_table_def using i(1) nn by (rule feature_engineering_object_cells)
  then show "\<forall>row \<in> set (data_dict (derived_table lib df)). dtype_of row = Object \<longrightarrow> n_missing row = 0"
    by (rule object_cells_data_dict)
  let ?pre = "coerce_numerics lib (coerce_dates lib (strip_columns df))"
  note s1 = strip_columns_props [OF assms(1)]
  note s2 = coerce_dates_props [OF s1(1) s1(2) assms(2)]
  have r2: "rectangular (coerce_dates lib (strip_columns df))"
    and d2: "distinct (columns (coerce_dates lib (strip_columns df)))"
    using s2(1,2) s1(2) by simp_all
  note s3 = coerce_numerics_props [OF r2 d2 assms(2)]
  have r3: "rectangular ?pre" and d3: "distinct (columns ?pre)"
    using s3(1,2) d2 by simp_all
  note s4 = normalize_strings_props [OF r3 d3, where lib = lib]
  have n: "normalize_cell lib Null = Str ''nan''"
    using assms(4) by (simp add: normalize_cell_def str_strip_def strip_nan)
  show "\<forall>j k. j < length (columns ?pre) \<and> k < length (rows ?pre) \<and>
                dtypes ?pre ! j = Object \<and> column_at ?pre j ! k = Null \<longrightarrow>
                column_at (normalize_strings lib ?pre) j ! k = Str ''nan''"
  proof (intro allI impI)
    fix j k
    assume h: "j < length (columns ?pre) \<and> k < length (rows ?pre) \<and>
                dtypes ?pre ! j = Object \<and> column_at ?pre j ! k = Null"
    then have "column_at (normalize_strings lib ?pre) j = map (normalize_cell lib) (column_at ?pre j)"
      using s4(4) by simp
    moreover have "k < length (column_at ?pre j)"
      using h by (simp add: column_at_def)
    ultimately show "column_at (normalize_strings lib ?pre) j ! k = Str ''nan''"
      using h by (simp add: n)
  qed
qed

lemma demo_pre:
  "coerce_numerics ref_pandas (coerce_dates ref_pandas (strip_columns demo_raw)) =
   \<lparr>columns =
    [''Order Date'', ''Ship Date'', ''Sales'', ''Profit'', ''Category'',
     ''Product Name'', ''Region''],
    dtypes = [Datetime, Datetime, Numeric, Numeric, Object, Object, Object],
    rows =
      [[Ts 1672876800000000000, Ts 1673308800000000000, Num 100, Num 20,
        Str '' Tech '', Str ''Phone'', Str ''West''],
       [Ts 1674172800000000000, Ts 1674604800000000000, Num 50, Num (- 10),
        Str ''Tech'', Str ''Laptop'', Null],
       [Ts 1672876800000000000, Ts 1673308800000000000, Num 100, Num 20,
        Str ''Tech'', Str ''Phone '', Str ''West''],
       [Null, Ts 1675209600000000000, Num 70, Num 7, Str ''Office'',
        Str ''Paper'', Str ''East''],
       [Ts 1675382400000000000, Ts 1675468800000000000, Num 0, Num 5,
        Str ''Office'', Str ''Pen'', Str ''East''],
       [Ts 1675987200000000000, Ts 1676160000000000000, Null, Num 1,
        Str ''Office'', Str ''Ink'', Str ''East'']]\<rparr>"
  by code_simp

lemma demo_region_row:
  "\<lparr>column = ''Region'', dtype_of = Object, n_missing = 0, sample_value = Some (Str ''West'')\<rparr>
     \<in> set (data_dict (derived_table ref_pandas demo_raw))"
  by code_simp

lemma ref_astype_str_not_null: "\<forall>c. astype_str ref_pandas c \<noteq> Null"
proof
  fix c show "astype_str ref_pandas c \<noteq> Null"
    by (cases c) (simp_all add: ref_pandas_def ref_astype_str_def)
qed

lemma ref_astype_str_nan: "astype_str ref_pandas Null = Str ''nan''"
  by (simp add: ref_pandas_def ref_astype_str_def)

theorem object_columns_hold_nan_witness:
  "wf_frame demo_raw \<and> pandas_ok ref_pandas \<and>
   (\<forall>c. astype_str ref_pandas c \<noteq> Null) \<and> astype_str ref_pandas Null = Str ''nan'' \<and>
   dtypes (coerce_numerics ref_pandas (coerce_dates ref_pandas (strip_columns demo_raw))) ! 6 = Object \<and>
   column_at (coerce_numerics ref_pandas (coerce_dates ref_pandas (strip_columns demo_raw))) 6 ! 1 = Null \<and>
   column_at (normalize_strings ref_pandas
     (coerce_numerics ref_pandas (coerce_dates ref_pandas (strip_columns demo_raw)))) 6 ! 1 = Str ''nan'' \<and>
   \<lparr>column = ''Region'', dtype_of = Object, n_missing = 0, sample_value = Some (Str ''West'')\<rparr>
     \<in> set (data_dict (derived_table ref_pandas demo_raw))"
proof -
  let ?pre = "coerce_numerics ref_pandas (coerce_dates ref_pandas (strip_columns demo_raw))"
  have h: "6 < length (columns ?pre) \<and> 1 < length (rows ?pre) \<and>
           dtypes ?pre ! 6 = Object \<and> column_at ?pre 6 ! 1 = Null"
    by (simp add: demo_pre column_at_def)
  from object_columns_hold_nan [OF demo_raw_wf ref_pandas_ok ref_astype_str_not_null ref_astype_str_nan] h
  have "column_at (normalize_strings ref_pandas ?pre) 6 ! 1 = Str ''nan''"
    by blast
  with h demo_raw_wf ref_pandas_ok ref_astype_str_not_null ref_astype_str_nan demo_region_row
  show ?thesis
    by blast
qed

text \<open>
  With the \<^verbatim>\<open>astype(str)\<close> of pandas 3 the missing region of the second order stays
  missing in the object column \<^verbatim>\<open>Region\<close> of the cleaned table, and the data dictionary
  counts it.
\<close>

theorem object_columns_hold_nan_counterexample:
  "wf_frame demo_raw \<and> pandas_ok ref_pandas_na \<and>
   dtypes (basic_clean ref_pandas_na demo_raw) ! 6 = Object \<and>
   rows (basic_clean ref_pandas_na demo_raw) ! 1 ! 6 = Null \<and>
   data_dict (derived_table ref_pandas_na demo_raw) ! 6 =
     \<lparr>column = ''Region'', dtype_of = Object, n_missing = 1, sample_value = Some (Str ''West'')\<rparr>"
proof -
  have "dtypes (basic_clean ref_pandas_na demo_raw) ! 6 = Object \<and>
   rows (basic_clean ref_pandas_na demo_raw) ! 1 ! 6 = Null \<and>
   data_dict (derived_table ref_pandas_na demo_raw) ! 6 =
     \<lparr>column = ''Region'', dtype_of = Object, n_missing = 1, sample_value = Some (Str ''West'')\<rparr>"
    by code_simp
  with demo_raw_wf ref_pandas_na_ok show ?thesis
    by (intro conjI) simp_all
qed

section \<open>The scenario of two orders\<close>

text \<open>
  C8: the scenario of two orders of category Tech.  The cleaned table has 2 rows,
  OrderMonth is 2023-01-01 and ShipDelayDays is 5 in both rows, the KPIs are total sales
  150, total profit 10 and margin 1/15 (0.0667 to four places), and the table by
  category has the one row Tech with Sales 150 and Profit 10.
\<close>

theorem scenario_two_rows:
  "length (rows (basic_clean ref_pandas scenario_raw)) = 2 \<and>
   getitem (derived_table ref_pandas scenario_raw) ''OrderMonth'' =
     [Ts (days_from_civil 2023 1 1 * ns_per_day), Ts (days_from_civil 2023 1 1 * ns_per_day)] \<and>
   strftime_ymd (days_from_civil 2023 1 1 * ns_per_day) = ''2023-01-01'' \<and>
   getitem (derived_table ref_pandas scenario_raw) ''ShipDelayDays'' = [Num 5, Num 5] \<and>
   compute_kpis (derived_table ref_pandas scenario_raw) ''total_sales'' = Some (KFloat 150) \<and>
   compute_kpis (derived_table ref_pandas scenario_raw) ''total_profit'' = Some (KFloat 10) \<and>
   compute_kpis (derived_table ref_pandas scenario_raw) ''overall_profit_margin'' =
     Some (KFloat (1 / 15)) \<and>
   \<bar>(1 / 15 :: rat) - 667 / 10000\<bar> < 1 / 10000 \<and>
   group_tables (derived_table ref_pandas scenario_raw) ''by_category'' =
     Some [\<lparr>key = Str ''Tech'', sales_sum = 150, profit_sum = 10, profit_margin = Some (1 / 15)\<rparr>]"
  by code_simp

end
